theory Spec2Isabelle
  imports Complex_Main "HOL-Library.Sublist"
begin

section \<open>codestat: a shallow embedding of \<open>bin.js\<close>\<close>

text \<open>
  The script walks a directory tree, counts the lines and bytes of the files whose
  extension is on a fixed allow-list, and prints a report. The embedding follows
  \<open>bin.js\<close> function by function. The Node.js library calls it makes
  (\<open>String.prototype.split\<close>, \<open>toLowerCase\<close>, \<open>path.join\<close>, \<open>path.basename\<close>,
  \<open>path.extname\<close>, \<open>Array.prototype.sort\<close>, \<open>Number.prototype.toFixed\<close>, \<open>util.format\<close>)
  are embedded from their documented POSIX / ECMAScript / Node.js behaviour.

  Conventions of the model:
  \<^item> JavaScript strings are \<open>string\<close>; \<open>toLowerCase\<close> maps the letters \<open>A\<close>..\<open>Z\<close> and
    leaves every other character alone, which is what JavaScript does on strings of
    ASCII characters (outside ASCII it maps further letters, for instance the Kelvin
    sign to \<open>k\<close>);
  \<^item> JavaScript numbers that hold counts and byte sizes are \<open>nat\<close>, which is exact as long
    as the totals stay below \<open>2^53\<close>;
  \<^item> the file system is a finite tree: what \<open>readdir\<close>, \<open>readFile\<close> and \<open>stat\<close> answer is
    stored in the node, an error as \<open>Inl\<close> of its message;
  \<^item> a line that \<open>console.warn\<close> or \<open>console.error\<close> writes is an \<open>output_line\<close>: their
    first argument is a format string, and where it makes Node print the message as a
    number or through \<open>util.inspect\<close>, the line records that instead of a text.
\<close>

subsection \<open>Strings\<close>

text \<open>\<open>s.split(sep)\<close> for a separator of one character.\<close>

fun split :: "char \<Rightarrow> string \<Rightarrow> string list" where
  "split sep [] = [[]]"
| "split sep (c # cs) =
     (if c = sep then [] # split sep cs
      else (case split sep cs of
              [] \<Rightarrow> [[c]]
            | seg # segs \<Rightarrow> (c # seg) # segs))"

text \<open>
  \<open>s.toLowerCase()\<close> as it acts on a string of ASCII characters. Outside ASCII JavaScript
  maps further letters (the Kelvin sign U+212A becomes \<open>k\<close>); the model leaves them
  alone, so it is exact for the names whose extension is written in ASCII.
\<close>

definition toLowerCase_char :: "char \<Rightarrow> char" where
  "toLowerCase_char c =
     (case map_of (zip ''ABCDEFGHIJKLMNOPQRSTUVWXYZ'' ''abcdefghijklmnopqrstuvwxyz'') c of
        None \<Rightarrow> c
      | Some l \<Rightarrow> l)"

definition toLowerCase :: "string \<Rightarrow> string" where
  "toLowerCase s = map toLowerCase_char s"

subsection \<open>The \<open>path\<close> module (POSIX)\<close>

definition slash :: char where
  "slash = CHR ''/''"

definition dot :: char where
  "dot = CHR ''.''"

text \<open>
  \<open>normalizeString\<close> works through the segments between slashes: empty segments and
  \<open>.\<close> are dropped, \<open>..\<close> removes the segment before it (or is kept, above the root of a
  relative path), any other segment is appended.
\<close>

definition normalizeStep :: "bool \<Rightarrow> string list \<Rightarrow> string \<Rightarrow> string list" where
  "normalizeStep allowAboveRoot res seg =
     (if seg = [] \<or> seg = ''.'' then res
      else if seg = ''..'' then
        (if res \<noteq> [] \<and> last res \<noteq> ''..'' then butlast res
         else if allowAboveRoot then res @ [''..'']
         else res)
      else res @ [seg])"

fun joinSegments :: "string list \<Rightarrow> string" where
  "joinSegments [] = []"
| "joinSegments [s] = s"
| "joinSegments (s # t # ss) = s @ slash # joinSegments (t # ss)"

definition normalizeString :: "string \<Rightarrow> bool \<Rightarrow> string" where
  "normalizeString p allowAboveRoot =
     joinSegments (foldl (normalizeStep allowAboveRoot) [] (split slash p))"

definition path_normalize :: "string \<Rightarrow> string" where
  "path_normalize p =
     (if p = [] then ''.''
      else
        let isAbsolute = (hd p = slash);
            trailingSeparator = (last p = slash);
            q = normalizeString p (\<not> isAbsolute)
        in if q = [] then (if isAbsolute then ''/'' else if trailingSeparator then ''./'' else ''.'')
           else
             let q' = (if trailingSeparator then q @ [slash] else q)
             in if isAbsolute then slash # q' else q')"

text \<open>\<open>path.join(a, b)\<close>: the non-empty arguments joined by a slash, then normalised.\<close>

definition path_join :: "string \<Rightarrow> string \<Rightarrow> string" where
  "path_join a b =
     (let joined = (if a = [] then b else if b = [] then a else a @ slash # b)
      in if joined = [] then ''.'' else path_normalize joined)"

text \<open>
  Both \<open>path.basename\<close> and \<open>path.extname\<close> scan the path from its end: trailing slashes
  are skipped and the scan stops at the next slash.
\<close>

definition lastPortion :: "string \<Rightarrow> string" where
  "lastPortion p =
     rev (takeWhile (\<lambda>c. c \<noteq> slash) (dropWhile (\<lambda>c. c = slash) (rev p)))"

definition path_basename :: "string \<Rightarrow> string" where
  "path_basename p = lastPortion p"

text \<open>
  \<open>path.extname\<close>: from the last dot of the last portion to its end; empty when the
  portion has no dot, when nothing stands before its last dot, or when it is \<open>..\<close>.
\<close>

definition path_extname :: "string \<Rightarrow> string" where
  "path_extname p =
     (let b = lastPortion p;
          afterDot = rev (takeWhile (\<lambda>c. c \<noteq> dot) (rev b));
          beforeDot = rev (drop 1 (dropWhile (\<lambda>c. c \<noteq> dot) (rev b)))
      in if dot \<notin> set b then []
         else if beforeDot = [] then []
         else if b = ''..'' then []
         else dot # afterDot)"

subsection \<open>The allow-list\<close>

definition CODE_FILE_EXTENSIONS :: "string list" where
  "CODE_FILE_EXTENSIONS =
    [''js'', ''ts'', ''jsx'', ''tsx'', ''py'', ''java'', ''rb'', ''php'', ''go'', ''rs'', ''c'',
     ''cpp'', ''cs'', ''swift'', ''kt'', ''kts'',
     ''html'', ''css'', ''scss'', ''sass'', ''less'', ''vue'', ''svelte'', ''dart'', ''r'', ''pl'',
     ''lua'', ''scala'',
     ''erl'', ''ex'', ''exs'', ''hs'', ''ml'', ''mli'', ''nim'', ''elm'', ''clj'', ''cljs'', ''coffee'',
     ''json'', ''yml'', ''yaml'', ''xml'', ''toml'', ''ini'', ''conf'', ''config'', ''properties'',
     ''plist'', ''env'', ''lock'', ''csv'', ''tsv'', ''ndjson'', ''avro'', ''parquet'', ''orc'',
     ''sh'', ''bash'', ''zsh'', ''fish'', ''bat'', ''cmd'', ''ps1'',
     ''md'', ''markdown'', ''txt'', ''rst'', ''asciidoc'', ''adoc'', ''org'', ''creole'',
     ''sql'', ''prisma'', ''graphql'', ''gql'', ''hbs'', ''handlebars'', ''ejs'', ''pug'', ''jade'',
     ''mustache'', ''jinja'', ''jinja2'', ''njk'', ''liquid'', ''twig'',
     ''spec.js'', ''test.js'', ''spec.ts'', ''test.ts'', ''story.js'', ''story.ts'',
     ''dockerfile'', ''dockerignore'', ''compose.yml'', ''compose.yaml'', ''k8s.yml'', ''k8s.yaml'',
     ''gitignore'', ''gitattributes'', ''editorconfig'',
     ''travis.yml'', ''circleci.yml'', ''github.yml'', ''gitlab-ci.yml'', ''jenkinsfile'',
     ''pipeline'',
     ''package.json'', ''package-lock.json'', ''yarn.lock'', ''pnpm-lock.yaml'', ''composer.json'',
     ''workspace'', ''workspace.json'', ''code-workspace'', ''settings.json'',
     ''wasm'', ''so'', ''dll'', ''exe'', ''bin'']"

text \<open>\<open>path.extname(fullPath).slice(1).toLowerCase()\<close>\<close>

definition extensionOf :: "string \<Rightarrow> string" where
  "extensionOf fullPath = toLowerCase (drop 1 (path_extname fullPath))"

definition isCodeFile :: "string \<Rightarrow> bool" where
  "isCodeFile fullPath = (extensionOf fullPath \<in> set CODE_FILE_EXTENSIONS)"

subsection \<open>The file system\<close>

text \<open>
  A node holds what the file-system calls answer for it. A regular file carries the
  result of \<open>readFile(path, "utf8")\<close> (the decoded text) and of \<open>stat(path).size\<close>. A
  directory carries its \<open>readdir\<close> listing, in listing order; \<open>Unlistable msg\<close> is a
  directory whose \<open>readdir\<close> throws an error with message \<open>msg\<close> (at the root also a
  path that does not exist). \<open>OtherEntry\<close> is an entry for which both \<open>isDirectory()\<close>
  and \<open>isFile()\<close> are false (a symbolic link, a FIFO, a socket, a device); it carries
  what \<open>readFile\<close> and \<open>stat\<close> would answer. The tree given to \<open>analyzeFolder\<close> is what
  the root path leads to; \<open>readdir\<close> of a root that is no directory throws \<open>ENOTDIR\<close>.
\<close>

datatype fsnode =
    RegularFile "string + string" "string + nat"
  | Directory "(string \<times> fsnode) list"
  | Unlistable string
  | OtherEntry "string + string" "string + nat"

fun isDirectory :: "fsnode \<Rightarrow> bool" where
  "isDirectory (Directory _) = True"
| "isDirectory (Unlistable _) = True"
| "isDirectory _ = False"

fun isFile :: "fsnode \<Rightarrow> bool" where
  "isFile (RegularFile _ _) = True"
| "isFile _ = False"

subsection \<open>Console output\<close>

text \<open>
  \<open>console.warn(first, message)\<close> and \<open>console.error(first, message)\<close> write one line,
  \<open>util.format(first, message)\<close>: the first argument is a format string. Its characters
  are scanned in pairs from the left, the last character is never the start of a
  specifier. As long as the argument has not been used, \<open>%s\<close> is replaced by the message
  and \<open>%c\<close> by nothing; \<open>%d\<close>, \<open>%i\<close>, \<open>%f\<close>, \<open>%j\<close>, \<open>%o\<close> and \<open>%O\<close> are replaced by the
  message as a number conversion, \<open>JSON.stringify\<close> or \<open>util.inspect\<close> prints it; each of
  them uses the argument up. \<open>%%\<close> becomes \<open>%\<close> at any time, every other pair stays. An
  argument that has not been used is appended after a space.

  A line is \<open>Text t\<close> when the model determines its text. \<open>Rendered before c argument
  after\<close> is the line that consists of \<open>before\<close>, of \<open>argument\<close> as Node prints it for
  the specifier \<open>c\<close> (one of \<open>d\<close>, \<open>i\<close>, \<open>f\<close>, \<open>j\<close>, \<open>o\<close>, \<open>O\<close>), and of \<open>after\<close>.
\<close>

datatype output_line =
    Text string
  | Rendered string char string string

definition percent :: char where
  "percent = CHR ''%''"

fun prepend :: "char \<Rightarrow> output_line \<Rightarrow> output_line" where
  "prepend c (Text t) = Text (c # t)"
| "prepend c (Rendered before specifier argument after) =
     Rendered (c # before) specifier argument after"

fun afterArgument :: "string \<Rightarrow> string" where
  "afterArgument [] = []"
| "afterArgument [c] = [c]"
| "afterArgument (c # d # rest) =
     (if c = percent then
        (if d = percent then percent # afterArgument rest
         else c # d # afterArgument rest)
      else c # afterArgument (d # rest))"

fun beforeArgument :: "string \<Rightarrow> string \<Rightarrow> output_line" where
  "beforeArgument message [] = Text ('' '' @ message)"
| "beforeArgument message [c] = Text (c # '' '' @ message)"
| "beforeArgument message (c # d # rest) =
     (if c = percent then
        (if d = CHR ''s'' then Text (message @ afterArgument rest)
         else if d = CHR ''c'' then Text (afterArgument rest)
         else if d \<in> set ''jdOoif'' then Rendered [] d message (afterArgument rest)
         else if d = percent then prepend percent (beforeArgument message rest)
         else prepend c (prepend d (beforeArgument message rest)))
      else prepend c (beforeArgument message (d # rest)))"

definition consoleFormat :: "string \<Rightarrow> string \<Rightarrow> output_line" where
  "consoleFormat first message = beforeArgument message first"

subsection \<open>The state of a scan\<close>

record totals =
  totalLines :: nat
  totalFiles :: nat
  totalSize :: nat

record fileLine =
  "file" :: string
  lines :: nat

text \<open>
  The variables that \<open>analyzeDir\<close> closes over. \<open>extensionsCount\<close> is an object whose
  keys are allow-listed extensions; none of them is an array index, so
  \<open>Object.entries\<close> lists them in insertion order: an association list. \<open>warnings\<close> is
  what \<open>console.warn\<close> has written.
\<close>

record scan_state = totals +
  fileLines :: "fileLine list"
  extensionsCount :: "(string \<times> nat) list"
  warnings :: "output_line list"

record scan_result = totals +
  topFiles :: "fileLine list"
  topExtensions :: "(string \<times> nat) list"

definition initial_state :: scan_state where
  "initial_state =
     \<lparr>totalLines = 0, totalFiles = 0, totalSize = 0,
      fileLines = [], extensionsCount = [], warnings = []\<rparr>"

text \<open>\<open>extensionsCount[ext] = (extensionsCount[ext] || 0) + 1\<close>\<close>

fun increment :: "string \<Rightarrow> (string \<times> nat) list \<Rightarrow> (string \<times> nat) list" where
  "increment ext [] = [(ext, 1)]"
| "increment ext ((k, v) # kvs) =
     (if k = ext then (k, v + 1) # kvs else (k, v) # increment ext kvs)"

definition newline :: char where
  "newline = CHR 0x0A"

text \<open>\<open>console.warn(`Warning: Could not read file ${fullPath}`, error.message)\<close>\<close>

definition warn :: "string \<Rightarrow> string \<Rightarrow> scan_state \<Rightarrow> scan_state" where
  "warn fullPath message s =
     s\<lparr>warnings := warnings s @
         [consoleFormat (''Warning: Could not read file '' @ fullPath) message]\<rparr>"

text \<open>
  The branch of the loop body for an entry with \<open>isFile()\<close> (lines 80 to 102): the
  counter goes up before the \<open>try\<close>; inside it the content is read, its lines are added
  and the file is pushed, then the size is read and added and the extension counted.
  An exception leaves the \<open>try\<close> at the call that throws.
\<close>

definition processFile ::
  "string \<Rightarrow> string + string \<Rightarrow> string + nat \<Rightarrow> scan_state \<Rightarrow> scan_state" where
  "processFile fullPath readFile stat s =
     (let ext = toLowerCase (drop 1 (path_extname fullPath))
      in if ext \<in> set CODE_FILE_EXTENSIONS then
           let s1 = s\<lparr>totalFiles := totalFiles s + 1\<rparr>
           in (case readFile of
                 Inl message \<Rightarrow> warn fullPath message s1
               | Inr fileContent \<Rightarrow>
                   let n = length (split newline fileContent);
                       s2 = s1\<lparr>totalLines := totalLines s1 + n,
                               fileLines := fileLines s1 @ [\<lparr>file = fullPath, lines = n\<rparr>]\<rparr>
                   in (case stat of
                         Inl message \<Rightarrow> warn fullPath message s2
                       | Inr stats_size \<Rightarrow>
                           s2\<lparr>totalSize := totalSize s2 + stats_size,
                              extensionsCount := increment ext (extensionsCount s2)\<rparr>))
         else s)"

text \<open>
  \<open>analyzeDir\<close> and its \<open>for\<close> loop over the entries. The first component of the result
  is the message of the exception that left the function, if one did.
\<close>

fun analyzeDir :: "string \<Rightarrow> fsnode \<Rightarrow> scan_state \<Rightarrow> string option \<times> scan_state"
  and analyzeEntries ::
    "string \<Rightarrow> (string \<times> fsnode) list \<Rightarrow> scan_state \<Rightarrow> string option \<times> scan_state"
where
  "analyzeDir directory (Directory entries) s = analyzeEntries directory entries s"
| "analyzeDir directory (Unlistable message) s = (Some message, s)"
| "analyzeDir directory (RegularFile _ _) s =
     (Some (''ENOTDIR: not a directory, scandir '' @ [CHR 0x27] @ directory @ [CHR 0x27]), s)"
| "analyzeDir directory (OtherEntry _ _) s =
     (Some (''ENOTDIR: not a directory, scandir '' @ [CHR 0x27] @ directory @ [CHR 0x27]), s)"
| "analyzeEntries directory [] s = (None, s)"
| "analyzeEntries directory ((name, node) # rest) s =
     (let fullPath = path_join directory name
      in if isDirectory node then
           (let dirName = path_basename fullPath
            in if dirName \<noteq> ''node_modules'' \<and> dirName \<noteq> ''.git'' then
                 (case analyzeDir fullPath node s of
                    (Some message, s') \<Rightarrow> (Some message, s')
                  | (None, s') \<Rightarrow> analyzeEntries directory rest s')
               else analyzeEntries directory rest s)
         else if isFile node then
           (case node of
              RegularFile readFile stat \<Rightarrow>
                analyzeEntries directory rest (processFile fullPath readFile stat s)
            | _ \<Rightarrow> analyzeEntries directory rest s)
         else analyzeEntries directory rest s)"

subsection \<open>Sorting\<close>

text \<open>
  \<open>Array.prototype.sort(compare)\<close> is a stable sort: with a consistent comparator the
  result is the one of inserting each element before the first one it does not have to
  follow.
\<close>

fun insertBy :: "('a \<Rightarrow> 'a \<Rightarrow> int) \<Rightarrow> 'a \<Rightarrow> 'a list \<Rightarrow> 'a list" where
  "insertBy compare x [] = [x]"
| "insertBy compare x (y # ys) =
     (if compare x y \<le> 0 then x # y # ys else y # insertBy compare x ys)"

definition sortBy :: "('a \<Rightarrow> 'a \<Rightarrow> int) \<Rightarrow> 'a list \<Rightarrow> 'a list" where
  "sortBy compare xs = foldr (insertBy compare) xs []"

definition byLines :: "fileLine \<Rightarrow> fileLine \<Rightarrow> int" where
  "byLines a b = int (lines b) - int (lines a)"

definition byCount :: "string \<times> nat \<Rightarrow> string \<times> nat \<Rightarrow> int" where
  "byCount a b = int (snd b) - int (snd a)"

subsection \<open>\<open>analyzeFolder\<close>\<close>

text \<open>
  The result pairs what was written by \<open>console.warn\<close> with the outcome: the message of
  the exception that rejects the promise, or the returned object.
\<close>

definition analyzeFolder ::
  "string \<Rightarrow> fsnode \<Rightarrow> output_line list \<times> (string + scan_result)" where
  "analyzeFolder folderPath tree =
     (case analyzeDir folderPath tree initial_state of
        (Some message, s) \<Rightarrow> (warnings s, Inl message)
      | (None, s) \<Rightarrow>
          (warnings s,
           Inr \<lparr>totalLines = totalLines s, totalFiles = totalFiles s, totalSize = totalSize s,
                topFiles = take 10 (sortBy byLines (fileLines s)),
                topExtensions = take 10 (sortBy byCount (extensionsCount s))\<rparr>))"

subsection \<open>Printing numbers\<close>

definition digit :: "nat \<Rightarrow> char" where
  "digit d = ''0123456789'' ! (d mod 10)"

text \<open>The decimal digits of an integer, as a template literal prints it.\<close>

fun digitsOf :: "nat \<Rightarrow> string" where
  "digitsOf n = (if n < 10 then [digit n] else digitsOf (n div 10) @ [digit (n mod 10)])"

declare digitsOf.simps [simp del]

text \<open>
  \<open>x.toFixed(f)\<close> for \<open>0 \<le> x < 10^21\<close>, after ECMAScript: \<open>n\<close> is the integer for which
  \<open>n / 10^f - x\<close> is closest to zero, the larger one of two; its digits are padded with
  zeros to at least \<open>f + 1\<close> and the point is put before the last \<open>f\<close>. The quotients
  \<open>size / 1024\<close> and \<open>size / (1024 * 1024)\<close> of an integer below \<open>2^53\<close> are exact in
  double precision, so \<open>x\<close> is a rational number here.
\<close>

definition toFixed :: "rat \<Rightarrow> nat \<Rightarrow> string" where
  "toFixed x f =
     (let n = nat \<lfloor>x * 10 ^ f + 1 / 2\<rfloor>;
          m = digitsOf n
      in if f \<noteq> 0 then
           let k = length m;
               m' = (if k \<le> f then replicate (f + 1 - k) (CHR ''0'') @ m else m);
               k' = (if k \<le> f then f + 1 else k)
           in take (k' - f) m' @ ''.'' @ drop (k' - f) m'
         else m)"

definition humanReadableSize :: "nat \<Rightarrow> string" where
  "humanReadableSize bytes =
     (if bytes < 1024 then digitsOf bytes @ '' B''
      else if bytes < 1024 * 1024 then toFixed (of_nat bytes / 1024) 2 @ '' KB''
      else toFixed (of_nat bytes / (1024 * 1024)) 2 @ '' MB'')"

subsection \<open>The main program\<close>

record process_result =
  stdout :: "string list"
  stderr :: "output_line list"
  exitCode :: nat

text \<open>The lines that the \<open>console.log\<close> calls of the \<open>try\<close> block write, one per call.\<close>

definition report :: "scan_result \<Rightarrow> string list" where
  "report r =
     [[newline],
      ''----------------------------'',
      ''| Project Analysis Summary |'',
      ''----------------------------'',
      ''* Total lines of code: '' @ digitsOf (totalLines r),
      ''* Total number of files: '' @ digitsOf (totalFiles r),
      ''* Total size of files: '' @ humanReadableSize (totalSize r),
      [newline],
      ''[i] Top 10 files with most lines:'']
     @ map (\<lambda>fl. ''  '' @ digitsOf (lines fl) @ '' lines - '' @ file fl) (topFiles r)
     @ [[newline],
        ''[i] Top 10 most popular file formats:'']
     @ map (\<lambda>(ext, count). ''  '' @ digitsOf count @ '' files - .'' @ ext) (topExtensions r)"

text \<open>
  \<open>argv2\<close> is \<open>process.argv[2]\<close>, \<open>tree\<close> what the file system holds at that path. The
  calls of \<open>console.log\<close> and the first \<open>console.error\<close> have one argument, which is written
  as it is; the second, \<open>console.error("Error:", err.message)\<close>, has a format string.
\<close>

definition main :: "string option \<Rightarrow> fsnode \<Rightarrow> process_result" where
  "main argv2 tree =
     (case argv2 of
        None \<Rightarrow> \<lparr>stdout = [], stderr = [Text ''Usage: codestat <directory>''], exitCode = 1\<rparr>
      | Some folderPath \<Rightarrow>
          if folderPath = [] then
            \<lparr>stdout = [], stderr = [Text ''Usage: codestat <directory>''], exitCode = 1\<rparr>
          else
            (case analyzeFolder folderPath tree of
               (warned, Inr r) \<Rightarrow> \<lparr>stdout = report r, stderr = warned, exitCode = 0\<rparr>
             | (warned, Inl message) \<Rightarrow>
                 \<lparr>stdout = [], stderr = warned @ [consoleFormat ''Error:'' message],
                  exitCode = 1\<rparr>))"

subsection \<open>Notions used in the statements\<close>

text \<open>
  A name as \<open>readdir\<close> returns it: not empty, without a slash, and neither \<open>.\<close> nor
  \<open>..\<close>. A tree is well formed when every entry in it has such a name.
\<close>

definition validName :: "string \<Rightarrow> bool" where
  "validName name \<longleftrightarrow> name \<noteq> [] \<and> slash \<notin> set name \<and> name \<noteq> ''.'' \<and> name \<noteq> ''..''"

fun wellFormed :: "fsnode \<Rightarrow> bool"
  and wellFormedEntries :: "(string \<times> fsnode) list \<Rightarrow> bool"
where
  "wellFormed (Directory entries) = wellFormedEntries entries"
| "wellFormed (RegularFile _ _) = True"
| "wellFormed (Unlistable _) = True"
| "wellFormed (OtherEntry _ _) = True"
| "wellFormedEntries [] = True"
| "wellFormedEntries ((name, node) # rest) =
     (validName name \<and> wellFormed node \<and> wellFormedEntries rest)"

definition ignoredNames :: "string list" where
  "ignoredNames = [''node_modules'', ''.git'']"

text \<open>
  The regular files of a tree that lie under no directory with an ignored name, in the
  order of the depth-first walk: each with its full path and what \<open>readFile\<close> and \<open>stat\<close>
  answer for it.
\<close>

type_synonym visit = "string \<times> (string + string) \<times> (string + nat)"

fun visitedFiles :: "string \<Rightarrow> fsnode \<Rightarrow> visit list"
  and visitedEntries :: "string \<Rightarrow> (string \<times> fsnode) list \<Rightarrow> visit list"
where
  "visitedFiles directory (Directory entries) = visitedEntries directory entries"
| "visitedFiles directory (RegularFile _ _) = []"
| "visitedFiles directory (Unlistable _) = []"
| "visitedFiles directory (OtherEntry _ _) = []"
| "visitedEntries directory [] = []"
| "visitedEntries directory ((name, node) # rest) =
     (case node of
        RegularFile readFile stat \<Rightarrow> [(path_join directory name, readFile, stat)]
      | Directory entries \<Rightarrow>
          (if name \<in> set ignoredNames then []
           else visitedEntries (path_join directory name) entries)
      | _ \<Rightarrow> [])
     @ visitedEntries directory rest"

text \<open>
  Some directory that the walk has to list cannot be listed; at the root this includes
  a path that is not a directory.
\<close>

fun listingFails :: "fsnode \<Rightarrow> bool"
  and listingFailsIn :: "(string \<times> fsnode) list \<Rightarrow> bool"
where
  "listingFails (Directory entries) = listingFailsIn entries"
| "listingFails (RegularFile _ _) = True"
| "listingFails (Unlistable _) = True"
| "listingFails (OtherEntry _ _) = True"
| "listingFailsIn [] = False"
| "listingFailsIn ((name, node) # rest) =
     ((isDirectory node \<and> name \<notin> set ignoredNames \<and> listingFails node)
      \<or> listingFailsIn rest)"

text \<open>
  The accepted files among the visited ones, and what each contributes. The record of
  a file is meant for a file whose content is read; the statements below apply
  \<open>lineRecord\<close> to such files only.
\<close>

definition accepted :: "visit list \<Rightarrow> visit list" where
  "accepted vs = filter (\<lambda>(fullPath, readFile, stat). isCodeFile fullPath) vs"

fun contentRead :: "visit \<Rightarrow> bool" where
  "contentRead (fullPath, Inr fileContent, stat) = True"
| "contentRead (fullPath, Inl message, stat) = False"

fun fullyRead :: "visit \<Rightarrow> bool" where
  "fullyRead (fullPath, Inr fileContent, Inr stats_size) = True"
| "fullyRead (fullPath, readFile, stat) = False"

fun lineRecord :: "visit \<Rightarrow> fileLine" where
  "lineRecord (fullPath, Inr fileContent, stat) =
     \<lparr>file = fullPath, lines = length (split newline fileContent)\<rparr>"
| "lineRecord (fullPath, Inl message, stat) = \<lparr>file = fullPath, lines = 0\<rparr>"

fun sizeOf :: "visit \<Rightarrow> nat" where
  "sizeOf (fullPath, readFile, Inr stats_size) = stats_size"
| "sizeOf (fullPath, readFile, Inl message) = 0"

fun warningOf :: "visit \<Rightarrow> output_line list" where
  "warningOf (fullPath, Inl message, stat) =
     [consoleFormat (''Warning: Could not read file '' @ fullPath) message]"
| "warningOf (fullPath, Inr fileContent, Inl message) =
     [consoleFormat (''Warning: Could not read file '' @ fullPath) message]"
| "warningOf (fullPath, Inr fileContent, Inr stats_size) = []"

text \<open>
  A format string has a specifier when a \<open>%\<close> in it is followed by one of the characters
  that \<open>util.format\<close> acts on.
\<close>

fun hasSpecifier :: "string \<Rightarrow> bool" where
  "hasSpecifier [] = False"
| "hasSpecifier [c] = False"
| "hasSpecifier (c # d # rest) =
     ((c = percent \<and> d \<in> set ''scjdOoif%'') \<or> hasSpecifier (d # rest))"

text \<open>The distinct elements of a list, in the order of their first occurrence.\<close>

definition addNew :: "'a list \<Rightarrow> 'a \<Rightarrow> 'a list" where
  "addNew xs x = (if x \<in> set xs then xs else xs @ [x])"

definition firstOccurrences :: "'a list \<Rightarrow> 'a list" where
  "firstOccurrences xs = foldl addNew [] xs"

text \<open>The extension as the specification words it: the text after the last dot.\<close>

definition afterLastDot :: "string \<Rightarrow> string" where
  "afterLastDot name =
     (if dot \<in> set name then toLowerCase (rev (takeWhile (\<lambda>c. c \<noteq> dot) (rev name))) else [])"

text \<open>A number of hundredths, printed with two decimal places.\<close>

definition twoDecimals :: "nat \<Rightarrow> string" where
  "twoDecimals n = digitsOf (n div 100) @ ''.'' @ [digit (n mod 100 div 10), digit (n mod 10)]"

text \<open>The loop body run over a list of visited files, one after the other.\<close>

definition processAll :: "scan_state \<Rightarrow> visit list \<Rightarrow> scan_state" where
  "processAll s vs = foldl (\<lambda>s (fullPath, readFile, stat). processFile fullPath readFile stat s) s vs"

text \<open>The extension counter after counting the extensions of a list, one by one.\<close>

definition countAll :: "(string \<times> nat) list \<Rightarrow> string list \<Rightarrow> (string \<times> nat) list" where
  "countAll kvs exts = foldl (\<lambda>kvs ext. increment ext kvs) kvs exts"

text \<open>
  The records of the accepted files whose content is read, and the extensions of the
  accepted files whose content and size are both read, in the order of the walk.
\<close>

definition candidates :: "string \<Rightarrow> fsnode \<Rightarrow> fileLine list" where
  "candidates folderPath tree =
     map lineRecord (filter contentRead (accepted (visitedFiles folderPath tree)))"

definition countedExtensions :: "string \<Rightarrow> fsnode \<Rightarrow> string list" where
  "countedExtensions folderPath tree =
     map (\<lambda>v. extensionOf (fst v)) (filter fullyRead (accepted (visitedFiles folderPath tree)))"

text \<open>The number that a string of decimal digits denotes.\<close>

definition valueOfDigits :: "string \<Rightarrow> nat" where
  "valueOfDigits ds = foldl (\<lambda>acc c. 10 * acc + (of_char c - 48)) 0 ds"

section \<open>Strings and paths\<close>

lemma split_not_Nil: "split sep s \<noteq> []"
  by (induction s) (auto split: list.splits)

lemma length_split: "length (split sep s) = Suc (count_list s sep)"
  by (induction s) (auto split: list.splits simp: split_not_Nil)

lemma split_without_sep: "sep \<notin> set s \<Longrightarrow> split sep s = [s]"
  by (induction s) auto

lemma split_append_sep: "split sep (xs @ sep # ys) = split sep xs @ split sep ys"
  by (induction xs) (auto split: list.splits simp: split_not_Nil)

lemma segments_of_split: "seg \<in> set (split sep s) \<Longrightarrow> sep \<notin> set seg"
  by (induction s arbitrary: seg) (auto split: list.splits if_splits)

lemma joinSegments_snoc:
  "joinSegments (ss @ [s]) = (if ss = [] then s else joinSegments ss @ slash # s)"
  by (induction ss rule: joinSegments.induct) auto

lemma normalizeStep_plain:
  "seg \<noteq> [] \<Longrightarrow> seg \<noteq> ''.'' \<Longrightarrow> seg \<noteq> ''..'' \<Longrightarrow> normalizeStep aboveRoot res seg = res @ [seg]"
  by (simp add: normalizeStep_def)

text \<open>
  The path of an entry: \<open>path.join\<close> leaves the name of the entry as the last portion of
  the path, whatever the directory path is.
\<close>

lemma lastPortion_after_slash:
  assumes "name \<noteq> []" "slash \<notin> set name" "pre = [] \<or> last pre = slash"
  shows "lastPortion (pre @ name) = name"
proof -
  have d: "dropWhile (\<lambda>c. c = slash) (rev name @ rev pre) = rev name @ rev pre"
    using assms(1,2) by (cases "rev name") (auto simp: )
  have t: "takeWhile (\<lambda>c. c \<noteq> slash) (rev name @ rev pre) = rev name"
  proof (cases "pre = []")
    case True
    then show ?thesis using assms(2) by (auto simp: takeWhile_eq_all_conv)
  next
    case False
    then have "last pre = slash" using assms(3) by simp
    then have "hd (rev pre) = slash" using False by (simp add: hd_rev)
    then obtain r where "rev pre = slash # r" using False by (cases "rev pre") auto
    then show ?thesis using assms(2) by (subst takeWhile_append2) auto
  qed
  show ?thesis by (simp add: lastPortion_def d t)
qed

lemma path_join_shape:
  assumes "validName name"
  shows "\<exists>pre. path_join directory name = pre @ name \<and> (pre = [] \<or> last pre = slash)"
proof -
  from assms have n: "name \<noteq> []" "slash \<notin> set name" "name \<noteq> ''.''" "name \<noteq> ''..''"
    by (simp_all add: validName_def)
  define joined where "joined = (if directory = [] then name else directory @ slash # name)"
  have "last name \<noteq> slash"
    using n(1,2) last_in_set by metis
  then have j: "joined \<noteq> []" "last joined \<noteq> slash"
    using n by (auto simp: joined_def)
  have sp: "\<exists>segs. split slash joined = segs @ [name]"
    using n by (auto simp: joined_def split_append_sep split_without_sep intro: exI[of _ "[]"])
  then obtain segs where segs: "split slash joined = segs @ [name]" by blast
  define aboveRoot where "aboveRoot = (hd joined \<noteq> slash)"
  define res where "res = foldl (normalizeStep aboveRoot) [] segs"
  have ns: "normalizeString joined aboveRoot = (if res = [] then name else joinSegments res @ slash # name)"
    using n by (simp add: normalizeString_def segs res_def normalizeStep_plain joinSegments_snoc)
  have ne: "normalizeString joined aboveRoot \<noteq> []"
    using n ns by auto
  have pj1: "path_join directory name = path_normalize joined"
    using n(1) j(1) by (simp add: path_join_def joined_def)
  have pj2: "path_normalize joined =
      (if hd joined = slash then slash # normalizeString joined aboveRoot
       else normalizeString joined aboveRoot)"
    using j ne by (simp add: path_normalize_def Let_def aboveRoot_def)
  note pj = pj1[unfolded pj2]
  show ?thesis
  proof (cases "res = []")
    case True
    then show ?thesis using pj ns by (auto intro: exI[of _ "[]"] exI[of _ "[slash]"])
  next
    case False
    then show ?thesis using pj ns
      by (auto intro: exI[of _ "joinSegments res @ [slash]"] exI[of _ "slash # joinSegments res @ [slash]"])
  qed
qed

lemma lastPortion_path_join:
  assumes "validName name"
  shows "lastPortion (path_join directory name) = name"
proof -
  obtain pre where "path_join directory name = pre @ name" "pre = [] \<or> last pre = slash"
    using path_join_shape[OF assms] by blast
  then show ?thesis
    using assms lastPortion_after_slash[of name pre] by (simp add: validName_def)
qed

lemma path_basename_join: "validName name \<Longrightarrow> path_basename (path_join directory name) = name"
  by (simp add: path_basename_def lastPortion_path_join)




text \<open>The examples of the Node.js documentation of the \<open>path\<close> module.\<close>

lemma path_extname_examples:
  "path_extname ''index.html'' = ''.html''"
  "path_extname ''index.coffee.md'' = ''.md''"
  "path_extname ''index.'' = ''.''"
  "path_extname ''index'' = ''''"
  "path_extname ''.index'' = ''''"
  "path_extname ''.index.md'' = ''.md''"
  by code_simp+

lemma path_basename_examples:
  "path_basename ''/foo/bar/baz/asdf/quux.html'' = ''quux.html''"
  "path_basename ''/foo/bar/'' = ''bar''"
  by code_simp+

lemma path_join_examples:
  "path_join ''/foo'' ''bar'' = ''/foo/bar''"
  "path_join ''/foo/bar/baz/asdf'' ''..'' = ''/foo/bar/baz''"
  "path_join ''./proj'' ''src'' = ''proj/src''"
  "path_join ''.'' ''src'' = ''src''"
  "path_join ''../x//'' ''a.js'' = ''../x/a.js''"
  by code_simp+

section \<open>Console output\<close>

lemma hasSpecifier_tail: "hasSpecifier rest \<Longrightarrow> hasSpecifier (c # rest)"
  by (cases rest) auto

lemma hasSpecifier_after_plain:
  "percent \<notin> set before \<Longrightarrow> hasSpecifier (before @ fmt) = hasSpecifier fmt"
proof (induction before)
  case Nil
  show ?case by simp
next
  case (Cons c before)
  then have "hasSpecifier (c # before @ fmt) = hasSpecifier (before @ fmt)"
    by (cases "before @ fmt") auto
  with Cons show ?case by simp
qed

text \<open>A format string without specifier is written as it is, then a space and the message.\<close>

lemma beforeArgument_plain:
  "\<not> hasSpecifier fmt \<Longrightarrow> beforeArgument message fmt = Text (fmt @ '' '' @ message)"
proof (induction message fmt rule: beforeArgument.induct)
  case (3 message c d rest)
  show ?case
  proof (cases "c = percent")
    case True
    with "3.prems" have d: "d \<notin> set ''scjdOoif%''" and r: "\<not> hasSpecifier rest"
      using hasSpecifier_tail[of rest d] by auto
    from d have "d \<noteq> CHR ''s''" "d \<noteq> CHR ''c''" "d \<notin> set ''jdOoif''" "d \<noteq> percent"
      by (auto simp: percent_def)
    with True "3.IH"(2) r show ?thesis
      by simp
  next
    case False
    with "3.prems" have "\<not> hasSpecifier (d # rest)" by simp
    with False "3.IH"(3) show ?thesis by simp
  qed
qed simp_all

lemma consoleFormat_plain:
  "\<not> hasSpecifier fmt \<Longrightarrow> consoleFormat fmt message = Text (fmt @ '' '' @ message)"
  by (simp add: consoleFormat_def beforeArgument_plain)

lemma consoleFormat_warning:
  assumes "\<not> hasSpecifier fullPath"
  shows "consoleFormat (''Warning: Could not read file '' @ fullPath) message =
           Text (''Warning: Could not read file '' @ fullPath @ '' '' @ message)"
proof -
  have "hasSpecifier (''Warning: Could not read file '' @ fullPath) = hasSpecifier fullPath"
    by (rule hasSpecifier_after_plain) (simp add: percent_def)
  with assms have "\<not> hasSpecifier (''Warning: Could not read file '' @ fullPath)"
    by blast
  from consoleFormat_plain[OF this, of message] show ?thesis
    by simp
qed

lemma consoleFormat_error: "consoleFormat ''Error:'' message = Text (''Error: '' @ message)"
  using consoleFormat_plain[of "''Error:''" message] by (simp add: percent_def)

text \<open>
  The example of the Node.js documentation with one argument after the format string,
  and what specifiers in a path do to the warning.
\<close>

lemma consoleFormat_examples:
  "consoleFormat ''%s:%s'' ''foo'' = Text ''foo:%s''"
  "consoleFormat ''Warning: Could not read file proj/a%s.js'' ''EACCES: permission denied''
     = Text ''Warning: Could not read file proj/aEACCES: permission denied.js''"
  "consoleFormat ''Warning: Could not read file proj/a%d.js'' ''EACCES: permission denied''
     = Rendered ''Warning: Could not read file proj/a'' (CHR ''d'') ''EACCES: permission denied''
         ''.js''"
  "consoleFormat ''Warning: Could not read file proj/50%%.js'' ''EACCES: permission denied''
     = Text ''Warning: Could not read file proj/50%.js EACCES: permission denied''"
  "consoleFormat ''Warning: Could not read file proj/50%.js'' ''EACCES: permission denied''
     = Text ''Warning: Could not read file proj/50%.js EACCES: permission denied''"
  "consoleFormat ''Warning: Could not read file proj/a.js%'' ''EACCES: permission denied''
     = Text ''Warning: Could not read file proj/a.js% EACCES: permission denied''"
  by code_simp+

section \<open>Visiting one file\<close>

lemmas classify_defs =
  isCodeFile_def extensionOf_def path_extname_def lastPortion_def toLowerCase_def
  toLowerCase_char_def CODE_FILE_EXTENSIONS_def slash_def dot_def

lemma processFile_rejected:
  "\<not> isCodeFile fullPath \<Longrightarrow> processFile fullPath readFile stat s = s"
  by (simp add: processFile_def isCodeFile_def extensionOf_def)

lemma processFile_unreadable:
  "isCodeFile fullPath \<Longrightarrow>
   processFile fullPath (Inl message) stat s =
     s\<lparr>totalFiles := totalFiles s + 1,
       warnings := warnings s @
         [consoleFormat (''Warning: Could not read file '' @ fullPath) message]\<rparr>"
  by (simp add: processFile_def isCodeFile_def extensionOf_def warn_def)

lemma processFile_stat_failed:
  "isCodeFile fullPath \<Longrightarrow>
   processFile fullPath (Inr fileContent) (Inl message) s =
     s\<lparr>totalFiles := totalFiles s + 1,
       totalLines := totalLines s + length (split newline fileContent),
       fileLines := fileLines s @ [\<lparr>file = fullPath, lines = length (split newline fileContent)\<rparr>],
       warnings := warnings s @
         [consoleFormat (''Warning: Could not read file '' @ fullPath) message]\<rparr>"
  by (simp add: processFile_def isCodeFile_def extensionOf_def warn_def Let_def)

lemma processFile_read:
  "isCodeFile fullPath \<Longrightarrow>
   processFile fullPath (Inr fileContent) (Inr stats_size) s =
     s\<lparr>totalFiles := totalFiles s + 1,
       totalLines := totalLines s + length (split newline fileContent),
       fileLines := fileLines s @ [\<lparr>file = fullPath, lines = length (split newline fileContent)\<rparr>],
       totalSize := totalSize s + stats_size,
       extensionsCount := increment (extensionOf fullPath) (extensionsCount s)\<rparr>"
  by (simp add: processFile_def isCodeFile_def extensionOf_def Let_def)

lemma fileLines_processFile_content:
  "isCodeFile fullPath \<Longrightarrow>
   fileLines (processFile fullPath (Inr fileContent) stat s) =
     fileLines s @ [\<lparr>file = fullPath, lines = length (split newline fileContent)\<rparr>]"
  by (cases stat) (simp_all add: processFile_stat_failed processFile_read)

lemma totalLines_processFile_content:
  "isCodeFile fullPath \<Longrightarrow>
   totalLines (processFile fullPath (Inr fileContent) stat s) =
     totalLines s + length (split newline fileContent)"
  by (cases stat) (simp_all add: processFile_stat_failed processFile_read)

text \<open>
  C1. For an accepted file whose content is read, the line count that is recorded (pushed
  to \<open>fileLines\<close> and added to \<open>totalLines\<close>) is the number of segments of the content
  split at the newline character, that is one more than the number of newlines: 1 for a
  content without newline, and a trailing newline adds one empty segment. The content
  \<open>a\nb\nc\<close> counts 3 lines and \<open>a\nb\nc\n\<close> counts 4.
\<close>

theorem line_count_is_segment_count:
  "isCodeFile fullPath \<Longrightarrow>
     fileLines (processFile fullPath (Inr fileContent) stat s) =
       fileLines s @ [\<lparr>file = fullPath, lines = length (split newline fileContent)\<rparr>]
   \<and> totalLines (processFile fullPath (Inr fileContent) stat s) =
       totalLines s + length (split newline fileContent)
   \<and> length (split newline fileContent) = Suc (count_list fileContent newline)
   \<and> (newline \<notin> set fileContent \<longrightarrow> length (split newline fileContent) = 1)
   \<and> split newline (fileContent @ [newline]) = split newline fileContent @ [[]]
   \<and> length (split newline (''a'' @ [newline] @ ''b'' @ [newline] @ ''c'')) = 3
   \<and> length (split newline (''a'' @ [newline] @ ''b'' @ [newline] @ ''c'' @ [newline])) = 4"
proof (intro conjI impI)
  assume a: "isCodeFile fullPath"
  show "fileLines (processFile fullPath (Inr fileContent) stat s) =
       fileLines s @ [\<lparr>file = fullPath, lines = length (split newline fileContent)\<rparr>]"
    using a by (rule fileLines_processFile_content)
  show "totalLines (processFile fullPath (Inr fileContent) stat s) =
       totalLines s + length (split newline fileContent)"
    using a by (rule totalLines_processFile_content)
  show "length (split newline fileContent) = Suc (count_list fileContent newline)"
    by (rule length_split)
  show "split newline (fileContent @ [newline]) = split newline fileContent @ [[]]"
    using split_append_sep[of newline fileContent "[]"] by simp
  show "length (split newline (''a'' @ [newline] @ ''b'' @ [newline] @ ''c'')) = 3"
    by (simp add: length_split newline_def)
  show "length (split newline (''a'' @ [newline] @ ''b'' @ [newline] @ ''c'' @ [newline])) = 4"
    by (simp add: length_split newline_def)
next
  assume "newline \<notin> set fileContent"
  then show "length (split newline fileContent) = 1"
    by (simp add: split_without_sep)
qed

theorem line_count_is_segment_count_witness:
  "isCodeFile ''src/a.js''
   \<and> fileLines (processFile ''src/a.js'' (Inr (''x'' @ [newline] @ ''y'')) (Inr 3) initial_state) =
       [\<lparr>file = ''src/a.js'', lines = 2\<rparr>]
   \<and> totalLines (processFile ''src/a.js'' (Inr (''x'' @ [newline] @ ''y'')) (Inr 3) initial_state) = 2"
proof -
  have h: "isCodeFile ''src/a.js''"
    by (simp add: classify_defs)
  note t = line_count_is_segment_count
      [OF h, of "''x'' @ [newline] @ ''y''" "Inr 3" initial_state]
  show ?thesis
    using h t [THEN conjunct1] t [THEN conjunct2, THEN conjunct1]
    by (simp add: initial_state_def newline_def)
qed

section \<open>The walk\<close>

lemma analyzeEntries_file:
  "analyzeEntries directory ((name, RegularFile readFile stat) # rest) s =
     analyzeEntries directory rest (processFile (path_join directory name) readFile stat s)"
  by simp

lemma analyzeEntries_other:
  "analyzeEntries directory ((name, OtherEntry readFile stat) # rest) s =
     analyzeEntries directory rest s"
  by simp

lemma analyzeEntries_ignored:
  assumes "validName name" "isDirectory node" "name \<in> set ignoredNames"
  shows "analyzeEntries directory ((name, node) # rest) s = analyzeEntries directory rest s"
  using assms by (auto simp: path_basename_join ignoredNames_def)

lemma analyzeEntries_descend:
  assumes "validName name" "isDirectory node" "name \<notin> set ignoredNames"
  shows "analyzeEntries directory ((name, node) # rest) s =
           (case analyzeDir (path_join directory name) node s of
              (Some message, s') \<Rightarrow> (Some message, s')
            | (None, s') \<Rightarrow> analyzeEntries directory rest s')"
  using assms by (simp add: path_basename_join ignoredNames_def)

lemma processAll_Nil: "processAll s [] = s"
  by (simp add: processAll_def)

lemma processAll_Cons:
  "processAll s ((fullPath, readFile, stat) # vs) =
     processAll (processFile fullPath readFile stat s) vs"
  by (simp add: processAll_def)

lemma processAll_append: "processAll s (vs @ ws) = processAll (processAll s vs) ws"
  by (simp add: processAll_def)

text \<open>
  A walk that is left without an exception has run the loop body on the visited files,
  in their order.
\<close>

lemma walk_is_processAll:
  "wellFormed tree \<Longrightarrow> fst (analyzeDir directory tree s) = None \<Longrightarrow>
     snd (analyzeDir directory tree s) = processAll s (visitedFiles directory tree)"
  "wellFormedEntries entries \<Longrightarrow> fst (analyzeEntries directory entries s) = None \<Longrightarrow>
     snd (analyzeEntries directory entries s) = processAll s (visitedEntries directory entries)"
proof (induction directory tree s and directory entries s
    rule: analyzeDir_analyzeEntries.induct)
  case (6 directory name node rest s)
  from "6.prems" have v: "validName name" and wn: "wellFormed node" and wr: "wellFormedEntries rest"
    by simp_all
  have b: "path_basename (path_join directory name) = name"
    using v by (rule path_basename_join)
  show ?case
    using "6.IH" "6.prems"(2) wn wr
    by (cases node)
      (auto simp: b ignoredNames_def processAll_Cons processAll_append processAll_Nil
            split: prod.splits option.splits if_splits)
qed (simp_all add: processAll_Nil)

text \<open>The walk is left by an exception exactly when some listing fails.\<close>

lemma walk_fails_iff:
  "wellFormed tree \<Longrightarrow> (fst (analyzeDir directory tree s) \<noteq> None) = listingFails tree"
  "wellFormedEntries entries \<Longrightarrow>
     (fst (analyzeEntries directory entries s) \<noteq> None) = listingFailsIn entries"
proof (induction directory tree s and directory entries s
    rule: analyzeDir_analyzeEntries.induct)
  case (6 directory name node rest s)
  from "6.prems" have v: "validName name" and wn: "wellFormed node" and wr: "wellFormedEntries rest"
    by simp_all
  have b: "path_basename (path_join directory name) = name"
    using v by (rule path_basename_join)
  show ?case
  proof (cases "isDirectory node \<and> name \<notin> set ignoredNames")
    case True
    then have i: "isDirectory node"
      and nb: "path_basename (path_join directory name) \<noteq> ''node_modules'' \<and>
               path_basename (path_join directory name) \<noteq> ''.git''"
      by (simp_all add: b ignoredNames_def)
    note ih1 = "6.IH"(1)[OF refl i refl nb wn]
    show ?thesis
    proof (cases "analyzeDir (path_join directory name) node s")
      case (Pair thrown s1)
      show ?thesis
      proof (cases thrown)
        case None
        note ih4 = "6.IH"(2)[OF refl i refl nb Pair[symmetric] None wr]
        from ih1 Pair None have "\<not> listingFails node" by simp
        then show ?thesis
          using True Pair None ih4 by (simp add: b ignoredNames_def)
      next
        case (Some message)
        from ih1 Pair Some have "listingFails node" by simp
        then show ?thesis
          using True Pair Some by (simp add: b ignoredNames_def)
      qed
    qed
  next
    case False
    then show ?thesis
      using "6.IH"(3-) wr
      by (cases node) (auto simp: b ignoredNames_def)
  qed
qed simp_all

section \<open>What the visited files add up to\<close>

lemma totalFiles_processFile:
  "totalFiles (processFile fullPath readFile stat s) =
     totalFiles s + (if isCodeFile fullPath then 1 else 0)"
  by (cases "isCodeFile fullPath"; cases readFile; cases stat)
    (simp_all add: processFile_rejected processFile_unreadable processFile_stat_failed
       processFile_read)

lemma fileLines_processFile:
  "fileLines (processFile fullPath readFile stat s) =
     fileLines s @ map lineRecord (filter contentRead (accepted [(fullPath, readFile, stat)]))"
  by (cases "isCodeFile fullPath"; cases readFile; cases stat)
    (simp_all add: accepted_def processFile_rejected processFile_unreadable
       processFile_stat_failed processFile_read)

lemma totalLines_processFile:
  "totalLines (processFile fullPath readFile stat s) =
     totalLines s
     + sum_list (map lines (map lineRecord (filter contentRead (accepted [(fullPath, readFile, stat)]))))"
  by (cases "isCodeFile fullPath"; cases readFile; cases stat)
    (simp_all add: accepted_def processFile_rejected processFile_unreadable
       processFile_stat_failed processFile_read)

lemma totalSize_processFile:
  "totalSize (processFile fullPath readFile stat s) =
     totalSize s + sum_list (map sizeOf (filter fullyRead (accepted [(fullPath, readFile, stat)])))"
  by (cases "isCodeFile fullPath"; cases readFile; cases stat)
    (simp_all add: accepted_def processFile_rejected processFile_unreadable
       processFile_stat_failed processFile_read)

lemma warnings_processFile:
  "warnings (processFile fullPath readFile stat s) =
     warnings s @ concat (map warningOf (accepted [(fullPath, readFile, stat)]))"
  by (cases "isCodeFile fullPath"; cases readFile; cases stat)
    (simp_all add: accepted_def processFile_rejected processFile_unreadable
       processFile_stat_failed processFile_read)

lemma extensionsCount_processFile:
  "extensionsCount (processFile fullPath readFile stat s) =
     countAll (extensionsCount s)
       (map (\<lambda>v. extensionOf (fst v)) (filter fullyRead (accepted [(fullPath, readFile, stat)])))"
  by (cases "isCodeFile fullPath"; cases readFile; cases stat)
    (simp_all add: accepted_def countAll_def processFile_rejected processFile_unreadable
       processFile_stat_failed processFile_read)

lemma accepted_Cons: "accepted (v # vs) = accepted [v] @ accepted vs"
  by (simp add: accepted_def)

lemma countAll_append: "countAll kvs (xs @ ys) = countAll (countAll kvs xs) ys"
  by (simp add: countAll_def)

lemma totalFiles_processAll:
  "totalFiles (processAll s vs) = totalFiles s + length (accepted vs)"
proof (induction vs arbitrary: s)
  case Nil
  show ?case by (simp add: processAll_Nil accepted_def)
next
  case (Cons v vs)
  obtain fullPath readFile stat where v: "v = (fullPath, readFile, stat)"
    by (cases v) auto
  show ?case
    by (simp add: v processAll_Cons Cons.IH totalFiles_processFile accepted_def)
qed

lemma fileLines_processAll:
  "fileLines (processAll s vs) = fileLines s @ map lineRecord (filter contentRead (accepted vs))"
proof (induction vs arbitrary: s)
  case Nil
  show ?case by (simp add: processAll_Nil accepted_def)
next
  case (Cons v vs)
  obtain fullPath readFile stat where v: "v = (fullPath, readFile, stat)"
    by (cases v) auto
  show ?case
    by (simp add: v processAll_Cons Cons.IH fileLines_processFile accepted_def)
qed

lemma totalLines_processAll:
  "totalLines (processAll s vs) =
     totalLines s + sum_list (map lines (map lineRecord (filter contentRead (accepted vs))))"
proof (induction vs arbitrary: s)
  case Nil
  show ?case by (simp add: processAll_Nil accepted_def)
next
  case (Cons v vs)
  obtain fullPath readFile stat where v: "v = (fullPath, readFile, stat)"
    by (cases v) auto
  show ?case
    by (simp add: v processAll_Cons Cons.IH totalLines_processFile accepted_def)
qed

lemma totalSize_processAll:
  "totalSize (processAll s vs) =
     totalSize s + sum_list (map sizeOf (filter fullyRead (accepted vs)))"
proof (induction vs arbitrary: s)
  case Nil
  show ?case by (simp add: processAll_Nil accepted_def)
next
  case (Cons v vs)
  obtain fullPath readFile stat where v: "v = (fullPath, readFile, stat)"
    by (cases v) auto
  show ?case
    by (simp add: v processAll_Cons Cons.IH totalSize_processFile accepted_def)
qed

lemma warnings_processAll:
  "warnings (processAll s vs) = warnings s @ concat (map warningOf (accepted vs))"
proof (induction vs arbitrary: s)
  case Nil
  show ?case by (simp add: processAll_Nil accepted_def)
next
  case (Cons v vs)
  obtain fullPath readFile stat where v: "v = (fullPath, readFile, stat)"
    by (cases v) auto
  show ?case
    by (simp add: v processAll_Cons Cons.IH warnings_processFile accepted_def)
qed

lemma extensionsCount_processAll:
  "extensionsCount (processAll s vs) =
     countAll (extensionsCount s)
       (map (\<lambda>v. extensionOf (fst v)) (filter fullyRead (accepted vs)))"
proof (induction vs arbitrary: s)
  case Nil
  show ?case by (simp add: processAll_Nil accepted_def countAll_def)
next
  case (Cons v vs)
  obtain fullPath readFile stat where v: "v = (fullPath, readFile, stat)"
    by (cases v) auto
  show ?case
    by (simp add: v processAll_Cons Cons.IH extensionsCount_processFile accepted_def
          countAll_def)
qed

section \<open>Sorting and counting\<close>

lemma length_insertBy: "length (insertBy compare x xs) = Suc (length xs)"
  by (induction xs) auto

lemma length_sortBy: "length (sortBy compare xs) = length xs"
  by (induction xs) (auto simp: sortBy_def length_insertBy)

lemma set_insertBy: "set (insertBy compare x xs) = insert x (set xs)"
  by (induction xs) auto

lemma set_sortBy: "set (sortBy compare xs) = set xs"
  by (induction xs) (auto simp: sortBy_def set_insertBy)

text \<open>
  A comparator that subtracts a key of its first argument from the key of its second
  sorts by descending key.
\<close>

lemma sorted_insertBy:
  assumes "\<And>a b. (compare a b \<le> 0) = (key b \<le> key a)"
    and "sorted_wrt (\<lambda>a b. (key b :: nat) \<le> key a) xs"
  shows "sorted_wrt (\<lambda>a b. key b \<le> key a) (insertBy compare x xs)"
  using assms(2)
proof (induction xs)
  case Nil
  show ?case by simp
next
  case (Cons y ys)
  show ?case
  proof (cases "compare x y \<le> 0")
    case True
    then have "key y \<le> key x" by (simp add: assms(1))
    with Cons.prems True show ?thesis by (auto intro: order_trans)
  next
    case False
    then have "key x \<le> key y" by (simp add: assms(1))
    with Cons False show ?thesis by (auto simp: set_insertBy)
  qed
qed

lemma sorted_sortBy:
  assumes "\<And>a b. (compare a b \<le> 0) = (key b \<le> key a)"
  shows "sorted_wrt (\<lambda>a b. (key b :: nat) \<le> key a) (sortBy compare xs)"
proof (induction xs)
  case Nil
  show ?case by (simp add: sortBy_def)
next
  case (Cons x xs)
  have "sortBy compare (x # xs) = insertBy compare x (sortBy compare xs)"
    by (simp add: sortBy_def)
  with Cons assms show ?case by (simp add: sorted_insertBy)
qed

text \<open>Stability: elements with the same key keep their order.\<close>

lemma filter_insertBy:
  assumes "\<And>a b. (compare a b \<le> 0) = (key b \<le> key a)"
  shows "filter (\<lambda>y. key y = (k :: nat)) (insertBy compare x xs) =
           (if key x = k then x # filter (\<lambda>y. key y = k) xs else filter (\<lambda>y. key y = k) xs)"
proof (induction xs)
  case Nil
  show ?case by simp
next
  case (Cons y ys)
  show ?case
  proof (cases "compare x y \<le> 0")
    case True
    then show ?thesis by simp
  next
    case False
    then have "key x < key y" by (simp add: assms not_le)
    with False Cons show ?thesis by auto
  qed
qed

lemma sortBy_stable:
  assumes "\<And>a b. (compare a b \<le> 0) = (key b \<le> key a)"
  shows "filter (\<lambda>y. key y = (k :: nat)) (sortBy compare xs) = filter (\<lambda>y. key y = k) xs"
proof (induction xs)
  case Nil
  show ?case by (simp add: sortBy_def)
next
  case (Cons x xs)
  have "sortBy compare (x # xs) = insertBy compare x (sortBy compare xs)"
    by (simp add: sortBy_def)
  with Cons show ?case by (simp add: filter_insertBy[of compare key, OF assms])
qed

lemma byLines_key: "(byLines a b \<le> 0) = (lines b \<le> lines a)"
  by (simp add: byLines_def)

lemma byCount_key: "(byCount a b \<le> 0) = (snd b \<le> snd a)"
  by (simp add: byCount_def)

lemma filter_take_prefix: "prefix (filter P (take n xs)) (filter P xs)"
  by (rule filter_mono_prefix) (rule take_is_prefix)

text \<open>The extension counter lists each extension once, in the order of first occurrence.\<close>

lemma set_addNew: "set (addNew xs x) = insert x (set xs)"
  by (auto simp: addNew_def)

lemma distinct_addNew: "distinct xs \<Longrightarrow> distinct (addNew xs x)"
  by (auto simp: addNew_def)

lemma firstOccurrences_snoc: "firstOccurrences (xs @ [x]) = addNew (firstOccurrences xs) x"
  by (simp add: firstOccurrences_def)

lemma set_firstOccurrences: "set (firstOccurrences xs) = set xs"
  by (induction xs rule: rev_induct) (simp_all add: firstOccurrences_snoc set_addNew, simp add: firstOccurrences_def)

lemma distinct_firstOccurrences: "distinct (firstOccurrences xs)"
  by (induction xs rule: rev_induct) (simp_all add: firstOccurrences_snoc distinct_addNew, simp add: firstOccurrences_def)

lemma increment_tabulated:
  "distinct ks \<Longrightarrow>
   increment x (map (\<lambda>k. (k, g k)) ks) =
     (if x \<in> set ks then map (\<lambda>k. (k, if k = x then g k + 1 else g k)) ks
      else map (\<lambda>k. (k, g k)) ks @ [(x, 1)])"
  by (induction ks) auto

lemma countAll_snoc: "countAll kvs (xs @ [x]) = increment x (countAll kvs xs)"
  by (simp add: countAll_def)

lemma countAll_tabulated:
  "countAll [] xs = map (\<lambda>k. (k, count_list xs k)) (firstOccurrences xs)"
proof (induction xs rule: rev_induct)
  case Nil
  show ?case by (simp add: countAll_def firstOccurrences_def)
next
  case (snoc x xs)
  show ?case
  proof (cases "x \<in> set xs")
    case True
    then show ?thesis
      by (simp add: countAll_snoc snoc.IH increment_tabulated distinct_firstOccurrences
            set_firstOccurrences firstOccurrences_snoc addNew_def)
  next
    case False
    then have "count_list xs x = 0" by (simp add: count_list_0_iff)
    with False show ?thesis
      by (auto simp: countAll_snoc snoc.IH increment_tabulated distinct_firstOccurrences
            set_firstOccurrences firstOccurrences_snoc addNew_def)
  qed
qed

lemma length_firstOccurrences: "length (firstOccurrences xs) = card (set xs)"
  using distinct_card[OF distinct_firstOccurrences, of xs] by (simp add: set_firstOccurrences)

text \<open>
  The keys of \<open>extensionsCount\<close> are allow-listed extensions. None of them is written
  with digits only, so none is an array index, and none is the name of a property that
  a plain object inherits.
\<close>

lemma allowed_keys_are_plain:
  "\<forall>ext \<in> set CODE_FILE_EXTENSIONS. \<exists>c \<in> set ext. c \<notin> set ''0123456789''"
  "\<forall>ext \<in> set CODE_FILE_EXTENSIONS.
     ext \<notin> set [''constructor'', ''hasOwnProperty'', ''isPrototypeOf'', ''propertyIsEnumerable'',
                 ''toLocaleString'', ''toString'', ''valueOf'', ''__proto__'',
                 ''__defineGetter__'', ''__defineSetter__'', ''__lookupGetter__'',
                 ''__lookupSetter__'']"
  by code_simp+

section \<open>The result of a scan\<close>

lemma completed_walk:
  assumes "wellFormed tree" "analyzeDir folderPath tree s0 = (None, s)"
  shows "s = processAll s0 (visitedFiles folderPath tree)"
  using walk_is_processAll(1)[OF assms(1), of folderPath s0] assms(2) by simp

lemma completed_scan:
  assumes "wellFormed tree" "analyzeDir folderPath tree initial_state = (None, s)"
  shows "totalFiles s = length (accepted (visitedFiles folderPath tree))"
    and "fileLines s = candidates folderPath tree"
    and "totalLines s = sum_list (map lines (candidates folderPath tree))"
    and "totalSize s = sum_list (map sizeOf (filter fullyRead (accepted (visitedFiles folderPath tree))))"
    and "warnings s = concat (map warningOf (accepted (visitedFiles folderPath tree)))"
    and "extensionsCount s =
           map (\<lambda>k. (k, count_list (countedExtensions folderPath tree) k))
             (firstOccurrences (countedExtensions folderPath tree))"
  unfolding completed_walk[OF assms] candidates_def countedExtensions_def
  by (simp_all add: totalFiles_processAll fileLines_processAll totalLines_processAll
        totalSize_processAll warnings_processAll extensionsCount_processAll
        countAll_tabulated initial_state_def)

lemma length_filter_split:
  "length xs = length (filter P xs) + length (filter (\<lambda>x. \<not> P x) xs)"
  by (induction xs) auto

lemma fullyRead_contentRead: "fullyRead v \<Longrightarrow> contentRead v"
  by (cases v rule: fullyRead.cases) auto

text \<open>
  C4 (as amended). At the end of a scan that completes, \<open>totalLines\<close> is the sum of the
  line counts of the records pushed to the candidate list; \<open>totalFiles\<close> is the number
  of these records plus the number of accepted files whose content could not be read;
  \<open>totalSize\<close> is the sum of the sizes of the accepted files whose content and size were
  both read. When no read of an accepted file fails, \<open>totalFiles\<close> is the number of
  records and \<open>totalSize\<close> the sum of the sizes of their files.
\<close>

theorem totals_match_records:
  assumes "wellFormed tree" "analyzeDir folderPath tree initial_state = (None, s)"
  shows "totalLines s = sum_list (map lines (fileLines s))
    \<and> totalFiles s = length (fileLines s)
        + length (filter (\<lambda>v. \<not> contentRead v) (accepted (visitedFiles folderPath tree)))
    \<and> totalSize s =
        sum_list (map sizeOf (filter fullyRead (accepted (visitedFiles folderPath tree))))
    \<and> ((\<forall>v \<in> set (accepted (visitedFiles folderPath tree)). fullyRead v) \<longrightarrow>
          fileLines s = map lineRecord (accepted (visitedFiles folderPath tree))
        \<and> totalFiles s = length (fileLines s)
        \<and> totalSize s = sum_list (map sizeOf (accepted (visitedFiles folderPath tree))))"
proof (intro conjI impI)
  note c = completed_scan[OF assms]
  show "totalLines s = sum_list (map lines (fileLines s))"
    by (simp add: c(2,3))
  show "totalFiles s = length (fileLines s)
        + length (filter (\<lambda>v. \<not> contentRead v) (accepted (visitedFiles folderPath tree)))"
    using length_filter_split[of "accepted (visitedFiles folderPath tree)" contentRead]
    by (simp add: c(1,2) candidates_def)
  show "totalSize s =
        sum_list (map sizeOf (filter fullyRead (accepted (visitedFiles folderPath tree))))"
    by (rule c(4))
  assume all: "\<forall>v \<in> set (accepted (visitedFiles folderPath tree)). fullyRead v"
  then have f: "filter fullyRead (accepted (visitedFiles folderPath tree)) =
      accepted (visitedFiles folderPath tree)"
    by simp
  from all have g: "filter contentRead (accepted (visitedFiles folderPath tree)) =
      accepted (visitedFiles folderPath tree)"
    by (simp add: fullyRead_contentRead)
  show "fileLines s = map lineRecord (accepted (visitedFiles folderPath tree))"
    by (simp add: c(2) candidates_def g)
  show "totalFiles s = length (fileLines s)"
    by (simp add: c(1,2) candidates_def g)
  show "totalSize s = sum_list (map sizeOf (accepted (visitedFiles folderPath tree)))"
    by (simp add: c(4) f)
qed

text \<open>A scan of one readable \<open>.js\<close> file and one file that is not accepted.\<close>

theorem totals_match_records_witness:
  "wellFormed (Directory
       [(''a.js'', RegularFile (Inr (''x'' @ [newline] @ ''y'')) (Inr 3)),
        (''notes.bak'', RegularFile (Inr ''z'') (Inr 1))])
   \<and> analyzeDir ''proj''
       (Directory
         [(''a.js'', RegularFile (Inr (''x'' @ [newline] @ ''y'')) (Inr 3)),
          (''notes.bak'', RegularFile (Inr ''z'') (Inr 1))])
       initial_state
     = (None, \<lparr>totalLines = 2, totalFiles = 1, totalSize = 3,
          fileLines = [\<lparr>file = ''proj/a.js'', lines = 2\<rparr>],
          extensionsCount = [(''js'', 1)], warnings = []\<rparr>)
   \<and> sum_list (map sizeOf (accepted (visitedFiles ''proj'' (Directory
       [(''a.js'', RegularFile (Inr (''x'' @ [newline] @ ''y'')) (Inr 3)),
        (''notes.bak'', RegularFile (Inr ''z'') (Inr 1))])))) = 3"
proof -
  let ?tree = "Directory
       [(''a.js'', RegularFile (Inr (''x'' @ [newline] @ ''y'')) (Inr 3)),
        (''notes.bak'', RegularFile (Inr ''z'') (Inr 1))]"
  let ?s = "\<lparr>totalLines = 2, totalFiles = 1, totalSize = 3,
          fileLines = [\<lparr>file = ''proj/a.js'', lines = 2\<rparr>],
          extensionsCount = [(''js'', 1)], warnings = []\<rparr>"
  have w: "wellFormed ?tree"
    by code_simp
  have a: "analyzeDir ''proj'' ?tree initial_state = (None, ?s)"
    by code_simp
  have r: "\<forall>v \<in> set (accepted (visitedFiles ''proj'' ?tree)). fullyRead v"
    by code_simp
  note t = totals_match_records[OF w a]
  from t r have "totalSize ?s = sum_list (map sizeOf (accepted (visitedFiles ''proj'' ?tree)))"
    by blast
  then have "sum_list (map sizeOf (accepted (visitedFiles ''proj'' ?tree))) = 3"
    by simp
  with w a show ?thesis
    by blast
qed

text \<open>
  C4 as stated fails when the content of an accepted file cannot be read: the file is
  counted, but no record is pushed.
\<close>

theorem totals_match_records_counterexample:
  "analyzeDir ''proj''
     (Directory [(''a.js'', RegularFile (Inl ''EACCES: permission denied'') (Inr 10))])
     initial_state
   = (None, \<lparr>totalLines = 0, totalFiles = 1, totalSize = 0, fileLines = [],
        extensionsCount = [],
        warnings = [Text ''Warning: Could not read file proj/a.js EACCES: permission denied'']\<rparr>)
   \<and> totalFiles \<lparr>totalLines = 0, totalFiles = 1, totalSize = 0, fileLines = [],
        extensionsCount = [],
        warnings = [Text ''Warning: Could not read file proj/a.js EACCES: permission denied'']\<rparr>
     \<noteq> length (fileLines \<lparr>totalLines = 0, totalFiles = 1, totalSize = 0, fileLines = [],
        extensionsCount = [],
        warnings = [Text ''Warning: Could not read file proj/a.js EACCES: permission denied'']\<rparr>)"
  by code_simp

lemma analyzeFolder_completed:
  assumes "analyzeFolder folderPath tree = (warned, Inr r)"
  shows "\<exists>s. analyzeDir folderPath tree initial_state = (None, s)
    \<and> warned = warnings s
    \<and> totalLines r = totalLines s \<and> totalFiles r = totalFiles s \<and> totalSize r = totalSize s
    \<and> topFiles r = take 10 (sortBy byLines (fileLines s))
    \<and> topExtensions r = take 10 (sortBy byCount (extensionsCount s))"
  using assms
  by (cases "analyzeDir folderPath tree initial_state")
     (auto simp: analyzeFolder_def split: option.splits)

text \<open>
  C2 (as amended). For a scan that completes, \<open>topFiles\<close> has length
  \<open>min 10\<close> of the number of accepted files whose content was read (which is
  \<open>totalFiles\<close> when no content read failed) and is sorted descending by line count;
  \<open>topExtensions\<close> has length \<open>min 10\<close> of the number of distinct extensions of the
  accepted files that were read completely, and is sorted descending by frequency. In
  both lists, entries with equal counts keep the order in which they were encountered.
\<close>

theorem top_lists:
  assumes "wellFormed tree" "analyzeFolder folderPath tree = (warned, Inr r)"
  shows "length (topFiles r) = min 10 (length (candidates folderPath tree))
    \<and> sorted_wrt (\<lambda>a b. lines b \<le> lines a) (topFiles r)
    \<and> (\<forall>k. prefix (filter (\<lambda>f. lines f = k) (topFiles r))
               (filter (\<lambda>f. lines f = k) (candidates folderPath tree)))
    \<and> length (topExtensions r) = min 10 (card (set (countedExtensions folderPath tree)))
    \<and> sorted_wrt (\<lambda>a b. snd b \<le> snd a) (topExtensions r)
    \<and> (\<forall>k. prefix (filter (\<lambda>e. snd e = k) (topExtensions r))
               (filter (\<lambda>e. snd e = k)
                  (map (\<lambda>ext. (ext, count_list (countedExtensions folderPath tree) ext))
                     (firstOccurrences (countedExtensions folderPath tree)))))
    \<and> ((\<forall>v \<in> set (accepted (visitedFiles folderPath tree)). contentRead v) \<longrightarrow>
          length (topFiles r) = min 10 (totalFiles r))
    \<and> ((\<forall>v \<in> set (accepted (visitedFiles folderPath tree)). fullyRead v) \<longrightarrow>
          length (topExtensions r) =
            min 10 (card (set (map (\<lambda>v. extensionOf (fst v))
                                 (accepted (visitedFiles folderPath tree))))))"
proof -
  obtain s where s: "analyzeDir folderPath tree initial_state = (None, s)"
    and tf: "topFiles r = take 10 (sortBy byLines (fileLines s))"
    and te: "topExtensions r = take 10 (sortBy byCount (extensionsCount s))"
    and n: "totalFiles r = totalFiles s"
    using analyzeFolder_completed[OF assms(2)] by blast
  note c = completed_scan[OF assms(1) s]
  let ?table = "map (\<lambda>ext. (ext, count_list (countedExtensions folderPath tree) ext))
                  (firstOccurrences (countedExtensions folderPath tree))"
  have 1: "length (topFiles r) = min 10 (length (candidates folderPath tree))"
    by (simp add: tf c(2) length_sortBy min.commute)
  have 2: "sorted_wrt (\<lambda>a b. lines b \<le> lines a) (topFiles r)"
    unfolding tf by (rule sorted_wrt_take) (rule sorted_sortBy[OF byLines_key])
  have 3: "prefix (filter (\<lambda>f. lines f = k) (topFiles r))
               (filter (\<lambda>f. lines f = k) (candidates folderPath tree))" for k
    using filter_take_prefix[of "\<lambda>f. lines f = k" 10 "sortBy byLines (fileLines s)"]
    by (simp add: tf sortBy_stable[of byLines lines, OF byLines_key] c(2))
  have 4: "length (topExtensions r) = min 10 (card (set (countedExtensions folderPath tree)))"
    by (simp add: te c(6) length_sortBy length_firstOccurrences min.commute)
  have 5: "sorted_wrt (\<lambda>a b. snd b \<le> snd a) (topExtensions r)"
    unfolding te by (rule sorted_wrt_take) (rule sorted_sortBy[OF byCount_key])
  have 6: "prefix (filter (\<lambda>e. snd e = k) (topExtensions r)) (filter (\<lambda>e. snd e = k) ?table)" for k
    using filter_take_prefix[of "\<lambda>e. snd e = k" 10 "sortBy byCount (extensionsCount s)"]
    by (simp add: te sortBy_stable[of byCount snd, OF byCount_key] c(6))
  have 7: "length (topFiles r) = min 10 (totalFiles r)"
    if "\<forall>v \<in> set (accepted (visitedFiles folderPath tree)). contentRead v"
  proof -
    from that have "filter contentRead (accepted (visitedFiles folderPath tree)) =
        accepted (visitedFiles folderPath tree)"
      by simp
    then show ?thesis
      by (simp add: 1 n c(1) candidates_def)
  qed
  have 8: "length (topExtensions r) =
            min 10 (card (set (map (\<lambda>v. extensionOf (fst v))
                                 (accepted (visitedFiles folderPath tree)))))"
    if "\<forall>v \<in> set (accepted (visitedFiles folderPath tree)). fullyRead v"
  proof -
    from that have "filter fullyRead (accepted (visitedFiles folderPath tree)) =
        accepted (visitedFiles folderPath tree)"
      by simp
    then show ?thesis
      by (simp add: 4 countedExtensions_def)
  qed
  from 1 2 3 4 5 6 7 8 show ?thesis by blast
qed

text \<open>A scan of three readable files, two of them with the same line count.\<close>

theorem top_lists_witness:
  "wellFormed (Directory
       [(''a.js'', RegularFile (Inr ''x'') (Inr 1)),
        (''b.py'', RegularFile (Inr (''x'' @ [newline] @ ''y'')) (Inr 3)),
        (''c.js'', RegularFile (Inr ''z'') (Inr 1))])
   \<and> analyzeFolder ''proj''
       (Directory
         [(''a.js'', RegularFile (Inr ''x'') (Inr 1)),
          (''b.py'', RegularFile (Inr (''x'' @ [newline] @ ''y'')) (Inr 3)),
          (''c.js'', RegularFile (Inr ''z'') (Inr 1))])
     = ([], Inr \<lparr>totalLines = 4, totalFiles = 3, totalSize = 5,
          topFiles = [\<lparr>file = ''proj/b.py'', lines = 2\<rparr>,
                      \<lparr>file = ''proj/a.js'', lines = 1\<rparr>,
                      \<lparr>file = ''proj/c.js'', lines = 1\<rparr>],
          topExtensions = [(''js'', 2), (''py'', 1)]\<rparr>)
   \<and> length (topFiles \<lparr>totalLines = 4, totalFiles = 3, totalSize = 5,
          topFiles = [\<lparr>file = ''proj/b.py'', lines = 2\<rparr>,
                      \<lparr>file = ''proj/a.js'', lines = 1\<rparr>,
                      \<lparr>file = ''proj/c.js'', lines = 1\<rparr>],
          topExtensions = [(''js'', 2), (''py'', 1)]\<rparr>)
       = min 10 (totalFiles \<lparr>totalLines = 4, totalFiles = 3, totalSize = 5,
          topFiles = [\<lparr>file = ''proj/b.py'', lines = 2\<rparr>,
                      \<lparr>file = ''proj/a.js'', lines = 1\<rparr>,
                      \<lparr>file = ''proj/c.js'', lines = 1\<rparr>],
          topExtensions = [(''js'', 2), (''py'', 1)]\<rparr>)
   \<and> min 10 (length (candidates ''proj'' (Directory
         [(''a.js'', RegularFile (Inr ''x'') (Inr 1)),
          (''b.py'', RegularFile (Inr (''x'' @ [newline] @ ''y'')) (Inr 3)),
          (''c.js'', RegularFile (Inr ''z'') (Inr 1))]))) = 3
   \<and> min 10 (card (set (countedExtensions ''proj'' (Directory
         [(''a.js'', RegularFile (Inr ''x'') (Inr 1)),
          (''b.py'', RegularFile (Inr (''x'' @ [newline] @ ''y'')) (Inr 3)),
          (''c.js'', RegularFile (Inr ''z'') (Inr 1))])))) = 2
   \<and> min 10 (card (set (map (\<lambda>v. extensionOf (fst v)) (accepted (visitedFiles ''proj'' (Directory
         [(''a.js'', RegularFile (Inr ''x'') (Inr 1)),
          (''b.py'', RegularFile (Inr (''x'' @ [newline] @ ''y'')) (Inr 3)),
          (''c.js'', RegularFile (Inr ''z'') (Inr 1))])))))) = 2"
proof -
  let ?tree = "Directory
       [(''a.js'', RegularFile (Inr ''x'') (Inr 1)),
        (''b.py'', RegularFile (Inr (''x'' @ [newline] @ ''y'')) (Inr 3)),
        (''c.js'', RegularFile (Inr ''z'') (Inr 1))]"
  let ?r = "\<lparr>totalLines = 4, totalFiles = 3, totalSize = 5,
          topFiles = [\<lparr>file = ''proj/b.py'', lines = 2\<rparr>,
                      \<lparr>file = ''proj/a.js'', lines = 1\<rparr>,
                      \<lparr>file = ''proj/c.js'', lines = 1\<rparr>],
          topExtensions = [(''js'', 2), (''py'', 1)]\<rparr>"
  have w: "wellFormed ?tree"
    by code_simp
  have a: "analyzeFolder ''proj'' ?tree = ([], Inr ?r)"
    by code_simp
  have c: "\<forall>v \<in> set (accepted (visitedFiles ''proj'' ?tree)). contentRead v"
    by code_simp
  note t = top_lists[OF w a]
  from t have "length (topFiles ?r) = min 10 (length (candidates ''proj'' ?tree))"
    by blast
  then have 1: "min 10 (length (candidates ''proj'' ?tree)) = 3"
    by simp
  from t have "length (topExtensions ?r) = min 10 (card (set (countedExtensions ''proj'' ?tree)))"
    by blast
  then have 2: "min 10 (card (set (countedExtensions ''proj'' ?tree))) = 2"
    by simp
  from t c have 3: "length (topFiles ?r) = min 10 (totalFiles ?r)"
    by blast
  have f: "\<forall>v \<in> set (accepted (visitedFiles ''proj'' ?tree)). fullyRead v"
    by code_simp
  from t f have "length (topExtensions ?r) =
      min 10 (card (set (map (\<lambda>v. extensionOf (fst v)) (accepted (visitedFiles ''proj'' ?tree)))))"
    by blast
  then have 4: "min 10 (card (set (map (\<lambda>v. extensionOf (fst v))
      (accepted (visitedFiles ''proj'' ?tree))))) = 2"
    by simp
  from w a 1 2 3 4 show ?thesis
    by blast
qed

text \<open>
  C2 as stated fails when the content of an accepted file cannot be read: the file is
  counted in \<open>totalFiles\<close> but is no candidate for \<open>topFiles\<close>.
\<close>

theorem top_lists_counterexample:
  "analyzeFolder ''proj''
     (Directory [(''a.js'', RegularFile (Inl ''EACCES: permission denied'') (Inr 10))])
   = ([Text ''Warning: Could not read file proj/a.js EACCES: permission denied''],
      Inr \<lparr>totalLines = 0, totalFiles = 1, totalSize = 0, topFiles = [], topExtensions = []\<rparr>)
   \<and> length (topFiles
        \<lparr>totalLines = 0, totalFiles = 1, totalSize = 0, topFiles = [], topExtensions = []\<rparr>)
     \<noteq> min 10 (totalFiles
        \<lparr>totalLines = 0, totalFiles = 1, totalSize = 0, topFiles = [], topExtensions = []\<rparr>)"
  by code_simp

section \<open>Failures of single files\<close>

text \<open>
  C3 (as amended). An accepted file whose content cannot be read is counted in
  \<open>totalFiles\<close> and changes nothing else but the warnings: no lines, no size, no record,
  no extension count. An accepted file whose size cannot be read after its content was
  read is counted in \<open>totalFiles\<close> and adds no size and no extension count. In both cases
  one warning is written, and the loop goes on with the next entry. When the path of
  the file has no format specifier, the warning consists of the path of the file and
  the message of the error.
\<close>

theorem read_failure_is_skipped:
  "isCodeFile (path_join directory name) \<Longrightarrow>
     processFile (path_join directory name) (Inl message) stat s =
       s\<lparr>totalFiles := totalFiles s + 1,
         warnings := warnings s @
           [consoleFormat (''Warning: Could not read file '' @ path_join directory name) message]\<rparr>
   \<and> totalFiles (processFile (path_join directory name) (Inr fileContent) (Inl message) s) =
       totalFiles s + 1
   \<and> totalSize (processFile (path_join directory name) (Inr fileContent) (Inl message) s) =
       totalSize s
   \<and> extensionsCount (processFile (path_join directory name) (Inr fileContent) (Inl message) s) =
       extensionsCount s
   \<and> warnings (processFile (path_join directory name) (Inr fileContent) (Inl message) s) =
       warnings s @
         [consoleFormat (''Warning: Could not read file '' @ path_join directory name) message]
   \<and> (\<not> hasSpecifier (path_join directory name) \<longrightarrow>
        consoleFormat (''Warning: Could not read file '' @ path_join directory name) message =
          Text (''Warning: Could not read file '' @ path_join directory name @ '' '' @ message))
   \<and> analyzeEntries directory ((name, RegularFile readFile' stat') # rest) s =
       analyzeEntries directory rest (processFile (path_join directory name) readFile' stat' s)"
proof (intro conjI impI)
  assume "\<not> hasSpecifier (path_join directory name)"
  then show "consoleFormat (''Warning: Could not read file '' @ path_join directory name) message =
          Text (''Warning: Could not read file '' @ path_join directory name @ '' '' @ message)"
    by (rule consoleFormat_warning)
qed (simp_all add: processFile_unreadable processFile_stat_failed)

theorem read_failure_is_skipped_witness:
  "isCodeFile (path_join ''proj'' ''a.js'')
   \<and> processFile (path_join ''proj'' ''a.js'') (Inl ''EACCES: permission denied'') (Inr 10)
         initial_state =
       \<lparr>totalLines = 0, totalFiles = 1, totalSize = 0, fileLines = [], extensionsCount = [],
        warnings = [Text ''Warning: Could not read file proj/a.js EACCES: permission denied'']\<rparr>
   \<and> fst (analyzeEntries ''proj''
         [(''a.js'', RegularFile (Inl ''EACCES: permission denied'') (Inr 10)),
          (''b.js'', RegularFile (Inr ''x'') (Inr 1))] initial_state) = None
   \<and> totalFiles (snd (analyzeEntries ''proj''
         [(''a.js'', RegularFile (Inl ''EACCES: permission denied'') (Inr 10)),
          (''b.js'', RegularFile (Inr ''x'') (Inr 1))] initial_state)) = 2"
proof -
  have h: "isCodeFile (path_join ''proj'' ''a.js'')"
    by code_simp
  have p: "path_join ''proj'' ''a.js'' = ''proj/a.js''"
    by code_simp
  have n: "\<not> hasSpecifier (path_join ''proj'' ''a.js'')"
    by code_simp
  note t = read_failure_is_skipped[OF h, of "''EACCES: permission denied''" "Inr 10" initial_state]
  have f: "consoleFormat (''Warning: Could not read file '' @ path_join ''proj'' ''a.js'')
        ''EACCES: permission denied'' =
      Text (''Warning: Could not read file '' @ path_join ''proj'' ''a.js'' @ '' ''
              @ ''EACCES: permission denied'')"
    using t[THEN conjunct2, THEN conjunct2, THEN conjunct2, THEN conjunct2, THEN conjunct2,
        THEN conjunct1] n
    by blast
  have 1: "processFile (path_join ''proj'' ''a.js'') (Inl ''EACCES: permission denied'') (Inr 10)
         initial_state =
       \<lparr>totalLines = 0, totalFiles = 1, totalSize = 0, fileLines = [], extensionsCount = [],
        warnings = [Text ''Warning: Could not read file proj/a.js EACCES: permission denied'']\<rparr>"
    using t[THEN conjunct1, unfolded f] by (simp add: p initial_state_def)
  have 2: "analyzeEntries ''proj''
         [(''a.js'', RegularFile (Inl ''EACCES: permission denied'') (Inr 10)),
          (''b.js'', RegularFile (Inr ''x'') (Inr 1))] initial_state =
        analyzeEntries ''proj'' [(''b.js'', RegularFile (Inr ''x'') (Inr 1))]
          \<lparr>totalLines = 0, totalFiles = 1, totalSize = 0, fileLines = [], extensionsCount = [],
        warnings = [Text ''Warning: Could not read file proj/a.js EACCES: permission denied'']\<rparr>"
    using t[THEN conjunct2, THEN conjunct2, THEN conjunct2, THEN conjunct2, THEN conjunct2,
        THEN conjunct2,
        of "Inl ''EACCES: permission denied''" "Inr 10"
           "[(''b.js'', RegularFile (Inr ''x'') (Inr 1))]"]
    by (simp only: 1)
  have 3: "analyzeEntries ''proj'' [(''b.js'', RegularFile (Inr ''x'') (Inr 1))]
          \<lparr>totalLines = 0, totalFiles = 1, totalSize = 0, fileLines = [], extensionsCount = [],
        warnings = [Text ''Warning: Could not read file proj/a.js EACCES: permission denied'']\<rparr>
      = (None, \<lparr>totalLines = 1, totalFiles = 2, totalSize = 1,
          fileLines = [\<lparr>file = ''proj/b.js'', lines = 1\<rparr>], extensionsCount = [(''js'', 1)],
        warnings = [Text ''Warning: Could not read file proj/a.js EACCES: permission denied'']\<rparr>)"
    by code_simp
  show ?thesis
    unfolding 2 3 using h 1 by simp
qed

text \<open>
  C3 as stated fails for a failure of the size query: the content has been read before,
  and its lines are already added and recorded.
\<close>

theorem read_failure_is_skipped_counterexample:
  "analyzeFolder ''proj''
     (Directory [(''a.js'', RegularFile (Inr ''x'') (Inl ''ENOENT: no such file or directory''))])
   = ([Text ''Warning: Could not read file proj/a.js ENOENT: no such file or directory''],
      Inr \<lparr>totalLines = 1, totalFiles = 1, totalSize = 0,
           topFiles = [\<lparr>file = ''proj/a.js'', lines = 1\<rparr>], topExtensions = []\<rparr>)
   \<and> totalLines \<lparr>totalLines = 1, totalFiles = 1, totalSize = 0,
           topFiles = [\<lparr>file = ''proj/a.js'', lines = 1\<rparr>], topExtensions = []\<rparr> \<noteq> 0"
  by code_simp

section \<open>Which entries the walk looks at\<close>

text \<open>
  C8 (as amended). An entry that is a regular file is handed to the loop body for files:
  when its extension is accepted it is processed, completely if its content and size
  can be read and with a warning if the content cannot; when its extension is not
  accepted it is left alone. An entry that is neither a directory nor a regular file (a
  symbolic link, a special file) is not looked at: the state, warnings included, stays
  as it is.
\<close>

theorem only_regular_files_are_processed:
  "analyzeEntries directory ((name, RegularFile readFile stat) # rest) s =
     analyzeEntries directory rest (processFile (path_join directory name) readFile stat s)
   \<and> (\<not> isCodeFile (path_join directory name) \<longrightarrow>
        processFile (path_join directory name) readFile stat s = s)
   \<and> (isCodeFile (path_join directory name) \<longrightarrow>
        processFile (path_join directory name) (Inr fileContent) (Inr stats_size) s =
          s\<lparr>totalFiles := totalFiles s + 1,
            totalLines := totalLines s + length (split newline fileContent),
            fileLines := fileLines s @
              [\<lparr>file = path_join directory name, lines = length (split newline fileContent)\<rparr>],
            totalSize := totalSize s + stats_size,
            extensionsCount :=
              increment (extensionOf (path_join directory name)) (extensionsCount s)\<rparr>
        \<and> processFile (path_join directory name) (Inl message) stat s =
          s\<lparr>totalFiles := totalFiles s + 1,
            warnings := warnings s @
              [consoleFormat (''Warning: Could not read file '' @ path_join directory name)
                 message]\<rparr>)
   \<and> analyzeEntries directory ((name, OtherEntry readFile stat) # rest) s =
     analyzeEntries directory rest s"
  by (simp add: processFile_rejected processFile_read processFile_unreadable)

text \<open>A regular file \<open>a.js\<close> is counted; a symbolic link before it is passed over.\<close>

theorem only_regular_files_are_processed_witness:
  "isCodeFile (path_join ''proj'' ''a.js'')
   \<and> \<not> isCodeFile (path_join ''proj'' ''a.out'')
   \<and> processFile (path_join ''proj'' ''a.out'') (Inr ''x'') (Inr 1) initial_state = initial_state
   \<and> processFile (path_join ''proj'' ''a.js'') (Inr ''x'') (Inr 1) initial_state =
       \<lparr>totalLines = 1, totalFiles = 1, totalSize = 1,
        fileLines = [\<lparr>file = ''proj/a.js'', lines = 1\<rparr>],
        extensionsCount = [(''js'', 1)], warnings = []\<rparr>
   \<and> analyzeEntries ''proj''
        [(''link.js'', OtherEntry (Inr ''x'') (Inr 1)), (''a.js'', RegularFile (Inr ''x'') (Inr 1))]
        initial_state =
       (None, \<lparr>totalLines = 1, totalFiles = 1, totalSize = 1,
        fileLines = [\<lparr>file = ''proj/a.js'', lines = 1\<rparr>],
        extensionsCount = [(''js'', 1)], warnings = []\<rparr>)"
proof -
  have c: "isCodeFile (path_join ''proj'' ''a.js'')"
    and n: "\<not> isCodeFile (path_join ''proj'' ''a.out'')"
    by code_simp+
  have p: "path_join ''proj'' ''a.js'' = ''proj/a.js''"
    and e: "extensionOf ''proj/a.js'' = ''js''"
    by code_simp+
  note t1 = only_regular_files_are_processed
    [where directory = "''proj''" and name = "''a.out''" and readFile = "Inr ''x''"
       and stat = "Inr 1" and s = initial_state]
  note t2 = only_regular_files_are_processed
    [where directory = "''proj''" and name = "''a.js''" and readFile = "Inr ''x''"
       and stat = "Inr 1" and s = initial_state and fileContent = "''x''"
       and stats_size = 1 and rest = "[]"]
  note t3 = only_regular_files_are_processed
    [where directory = "''proj''" and name = "''link.js''" and readFile = "Inr ''x''"
       and stat = "Inr 1" and s = initial_state
       and rest = "[(''a.js'', RegularFile (Inr ''x'') (Inr 1))]"]
  have 1: "processFile (path_join ''proj'' ''a.out'') (Inr ''x'') (Inr 1) initial_state
      = initial_state"
    using t1[THEN conjunct2, THEN conjunct1] n by blast
  have 2: "processFile (path_join ''proj'' ''a.js'') (Inr ''x'') (Inr 1) initial_state =
       \<lparr>totalLines = 1, totalFiles = 1, totalSize = 1,
        fileLines = [\<lparr>file = ''proj/a.js'', lines = 1\<rparr>],
        extensionsCount = [(''js'', 1)], warnings = []\<rparr>"
    using t2[THEN conjunct2, THEN conjunct2, THEN conjunct1, rule_format, OF c, THEN conjunct1]
    by (simp add: p e newline_def initial_state_def)
  have 3: "analyzeEntries ''proj''
        [(''link.js'', OtherEntry (Inr ''x'') (Inr 1)), (''a.js'', RegularFile (Inr ''x'') (Inr 1))]
        initial_state =
      analyzeEntries ''proj'' [(''a.js'', RegularFile (Inr ''x'') (Inr 1))] initial_state"
    using t3[THEN conjunct2, THEN conjunct2, THEN conjunct2] .
  have 4: "analyzeEntries ''proj'' [(''a.js'', RegularFile (Inr ''x'') (Inr 1))] initial_state =
      analyzeEntries ''proj'' []
        (processFile (path_join ''proj'' ''a.js'') (Inr ''x'') (Inr 1) initial_state)"
    using t2[THEN conjunct1] .
  show ?thesis
    unfolding 3 4 using c n 1 2 by simp
qed

text \<open>
  C8 as stated fails on a symbolic link named \<open>link.js\<close> that leads to a readable file:
  the extension is accepted, yet nothing is counted.
\<close>

theorem only_regular_files_are_processed_counterexample:
  "isCodeFile (path_join ''proj'' ''link.js'')
   \<and> analyzeFolder ''proj'' (Directory [(''link.js'', OtherEntry (Inr ''x'') (Inr 1))])
     = ([], Inr \<lparr>totalLines = 0, totalFiles = 0, totalSize = 0,
                topFiles = [], topExtensions = []\<rparr>)
   \<and> analyzeFolder ''proj'' (Directory [(''link.js'', RegularFile (Inr ''x'') (Inr 1))])
     = ([], Inr \<lparr>totalLines = 1, totalFiles = 1, totalSize = 1,
                topFiles = [\<lparr>file = ''proj/link.js'', lines = 1\<rparr>],
                topExtensions = [(''js'', 1)]\<rparr>)
   \<and> analyzeFolder ''proj''
       (Directory [(''link.js'', OtherEntry (Inl ''ENOENT: no such file or directory'')
                                   (Inl ''ENOENT: no such file or directory''))])
     = ([], Inr \<lparr>totalLines = 0, totalFiles = 0, totalSize = 0,
                topFiles = [], topExtensions = []\<rparr>)"
  by code_simp

lemma validName_ignored: "validName ''node_modules''" "validName ''.git''"
  by (simp_all add: validName_def slash_def)

lemma ignored_only:
  "analyzeDir directory (Directory [(''node_modules'', Directory files)]) s = (None, s)"
  by (simp add: path_basename_join validName_ignored)

text \<open>
  C5. A directory entry named exactly \<open>node_modules\<close> or \<open>.git\<close> is skipped, whatever
  the path of the directory that holds it; every other directory entry is walked by
  \<open>analyzeDir\<close>. So a tree that holds only a directory \<open>node_modules\<close> leaves the state
  as it is and yields \<open>totalFiles = 0\<close>, also when that directory holds 100 files with the
  extension \<open>js\<close>.
\<close>

theorem ignored_directories_are_skipped:
  "validName name \<Longrightarrow> isDirectory node \<Longrightarrow>
     analyzeEntries directory ((name, node) # rest) s =
       (if name = ''node_modules'' \<or> name = ''.git'' then analyzeEntries directory rest s
        else (case analyzeDir (path_join directory name) node s of
                (Some message, s') \<Rightarrow> (Some message, s')
              | (None, s') \<Rightarrow> analyzeEntries directory rest s'))
   \<and> analyzeDir directory (Directory [(''node_modules'', Directory files)]) s = (None, s)
   \<and> analyzeFolder directory (Directory [(''node_modules'', Directory files)]) =
       ([], Inr \<lparr>totalLines = 0, totalFiles = 0, totalSize = 0,
                  topFiles = [], topExtensions = []\<rparr>)
   \<and> length (map (\<lambda>i. (''file'' @ digitsOf i @ ''.js'', RegularFile (Inr ''x'') (Inr 1)))
         [0..<100]) = 100
   \<and> totalFiles (snd (analyzeDir directory
         (Directory [(''node_modules'', Directory
            (map (\<lambda>i. (''file'' @ digitsOf i @ ''.js'', RegularFile (Inr ''x'') (Inr 1)))
              [0..<100]))])
         initial_state)) = 0"
proof (intro conjI)
  assume v: "validName name" and d: "isDirectory node"
  show "analyzeEntries directory ((name, node) # rest) s =
       (if name = ''node_modules'' \<or> name = ''.git'' then analyzeEntries directory rest s
        else (case analyzeDir (path_join directory name) node s of
                (Some message, s') \<Rightarrow> (Some message, s')
              | (None, s') \<Rightarrow> analyzeEntries directory rest s'))"
    using v d by (simp add: path_basename_join)
next
  show "analyzeDir directory (Directory [(''node_modules'', Directory files)]) s = (None, s)"
    by (rule ignored_only)
next
  show "analyzeFolder directory (Directory [(''node_modules'', Directory files)]) =
       ([], Inr \<lparr>totalLines = 0, totalFiles = 0, totalSize = 0,
                  topFiles = [], topExtensions = []\<rparr>)"
    unfolding analyzeFolder_def ignored_only by (simp add: initial_state_def sortBy_def)
next
  show "length (map (\<lambda>i. (''file'' @ digitsOf i @ ''.js'', RegularFile (Inr ''x'') (Inr 1)))
         [0..<100]) = 100"
    by simp
next
  show "totalFiles (snd (analyzeDir directory
         (Directory [(''node_modules'', Directory
            (map (\<lambda>i. (''file'' @ digitsOf i @ ''.js'', RegularFile (Inr ''x'') (Inr 1)))
              [0..<100]))])
         initial_state)) = 0"
    unfolding ignored_only by (simp add: initial_state_def)
qed

theorem ignored_directories_are_skipped_witness:
  "validName ''node_modules'' \<and> validName ''src''
   \<and> isDirectory (Directory [(''x.js'', RegularFile (Inr ''x'') (Inr 1))])
   \<and> analyzeEntries ''proj/lib''
        [(''node_modules'', Directory [(''x.js'', RegularFile (Inr ''x'') (Inr 1))])]
        initial_state
      = (None, initial_state)
   \<and> analyzeEntries ''proj/lib''
        [(''src'', Directory [(''x.js'', RegularFile (Inr ''x'') (Inr 1))])]
        initial_state
      = (None, \<lparr>totalLines = 1, totalFiles = 1, totalSize = 1,
           fileLines = [\<lparr>file = ''proj/lib/src/x.js'', lines = 1\<rparr>],
           extensionsCount = [(''js'', 1)], warnings = []\<rparr>)"
proof -
  let ?node = "Directory [(''x.js'', RegularFile (Inr ''x'') (Inr 1))]"
  have v1: "validName ''node_modules''" and v2: "validName ''src''"
    by (simp_all add: validName_def slash_def)
  have d: "isDirectory ?node"
    by simp
  have 1: "analyzeEntries ''proj/lib'' [(''node_modules'', ?node)] initial_state
      = (None, initial_state)"
    using ignored_directories_are_skipped[OF v1 d, of "''proj/lib''" "[]" initial_state,
        THEN conjunct1]
    by simp
  have a: "analyzeDir (path_join ''proj/lib'' ''src'') ?node initial_state
      = (None, \<lparr>totalLines = 1, totalFiles = 1, totalSize = 1,
           fileLines = [\<lparr>file = ''proj/lib/src/x.js'', lines = 1\<rparr>],
           extensionsCount = [(''js'', 1)], warnings = []\<rparr>)"
    by code_simp
  have 2: "analyzeEntries ''proj/lib'' [(''src'', ?node)] initial_state
      = (None, \<lparr>totalLines = 1, totalFiles = 1, totalSize = 1,
           fileLines = [\<lparr>file = ''proj/lib/src/x.js'', lines = 1\<rparr>],
           extensionsCount = [(''js'', 1)], warnings = []\<rparr>)"
    using ignored_directories_are_skipped[OF v2 d, of "''proj/lib''" "[]" initial_state,
        THEN conjunct1]
    by (simp only: a) simp
  from v1 v2 d 1 2 show ?thesis
    by blast
qed

section \<open>Failures of the walk\<close>

lemma main_failed:
  assumes "folderPath \<noteq> []" "analyzeDir folderPath tree initial_state = (Some message, s)"
  shows "main (Some folderPath) tree =
           \<lparr>stdout = [], stderr = warnings s @ [Text (''Error: '' @ message)], exitCode = 1\<rparr>"
  using assms consoleFormat_error[of message] by (simp add: main_def analyzeFolder_def)

lemma main_completed:
  assumes "folderPath \<noteq> []" "analyzeDir folderPath tree initial_state = (None, s)"
  shows "stdout (main (Some folderPath) tree) \<noteq> [] \<and> exitCode (main (Some folderPath) tree) = 0"
  using assms by (simp add: main_def analyzeFolder_def report_def)

text \<open>
  C7. When the listing of a directory that the walk reaches fails, or the root path
  cannot be listed, the exception leaves \<open>analyzeDir\<close>; the program then prints nothing
  to standard output, writes \<open>Error:\<close> and the message of the exception to the error
  stream (after the warnings written so far) and exits with code 1. The message of an
  unlistable root is the one of its \<open>readdir\<close>.
\<close>

theorem listing_failure_is_fatal:
  assumes "wellFormed tree" "listingFails tree" "folderPath \<noteq> []"
  shows "(\<exists>message.
            fst (analyzeDir folderPath tree initial_state) = Some message
          \<and> snd (analyzeFolder folderPath tree) = Inl message
          \<and> main (Some folderPath) tree =
              \<lparr>stdout = [],
               stderr = warnings (snd (analyzeDir folderPath tree initial_state))
                          @ [Text (''Error: '' @ message)],
               exitCode = 1\<rparr>)
    \<and> main (Some folderPath) (Unlistable message') =
          \<lparr>stdout = [], stderr = [Text (''Error: '' @ message')], exitCode = 1\<rparr>
    \<and> (validName name \<and> name \<notin> set ignoredNames \<longrightarrow>
          analyzeEntries folderPath ((name, Unlistable message') # rest) s = (Some message', s))"
proof (intro conjI impI)
  from walk_fails_iff(1)[OF assms(1), of folderPath initial_state] assms(2)
  obtain message where m: "fst (analyzeDir folderPath tree initial_state) = Some message"
    by auto
  then have a: "analyzeDir folderPath tree initial_state =
      (Some message, snd (analyzeDir folderPath tree initial_state))"
    by (simp add: prod_eq_iff)
  have "snd (analyzeFolder folderPath tree) = Inl message"
    unfolding analyzeFolder_def by (subst a) simp
  with m main_failed[OF assms(3) a]
  show "\<exists>message.
            fst (analyzeDir folderPath tree initial_state) = Some message
          \<and> snd (analyzeFolder folderPath tree) = Inl message
          \<and> main (Some folderPath) tree =
              \<lparr>stdout = [],
               stderr = warnings (snd (analyzeDir folderPath tree initial_state))
                          @ [Text (''Error: '' @ message)],
               exitCode = 1\<rparr>"
    by blast
next
  show "main (Some folderPath) (Unlistable message') =
          \<lparr>stdout = [], stderr = [Text (''Error: '' @ message')], exitCode = 1\<rparr>"
    using main_failed[OF assms(3), of "Unlistable message'" message' initial_state]
    by (simp add: initial_state_def)
next
  assume "validName name \<and> name \<notin> set ignoredNames"
  then show "analyzeEntries folderPath ((name, Unlistable message') # rest) s = (Some message', s)"
    by (subst analyzeEntries_descend) simp_all
qed

text \<open>
  A scan that warns about one file and then meets a directory that cannot be listed; the
  file after that directory is not reached. A scan of the same tree without that
  directory prints its report and exits with code 0.
\<close>

theorem listing_failure_is_fatal_witness:
  "wellFormed (Directory
       [(''a.js'', RegularFile (Inl ''EACCES: permission denied'') (Inr 1)),
        (''sub'', Unlistable ''EACCES: permission denied, scandir'')])
   \<and> listingFails (Directory
       [(''a.js'', RegularFile (Inl ''EACCES: permission denied'') (Inr 1)),
        (''sub'', Unlistable ''EACCES: permission denied, scandir'')])
   \<and> ''proj'' \<noteq> []
   \<and> main (Some ''proj'') (Directory
       [(''a.js'', RegularFile (Inl ''EACCES: permission denied'') (Inr 1)),
        (''sub'', Unlistable ''EACCES: permission denied, scandir'')])
     = \<lparr>stdout = [],
        stderr = [Text ''Warning: Could not read file proj/a.js EACCES: permission denied'',
                  Text ''Error: EACCES: permission denied, scandir''],
        exitCode = 1\<rparr>"
proof -
  let ?tree = "Directory
       [(''a.js'', RegularFile (Inl ''EACCES: permission denied'') (Inr 1)),
        (''sub'', Unlistable ''EACCES: permission denied, scandir'')]"
  have w: "wellFormed ?tree"
    by code_simp
  have l: "listingFails ?tree"
    by code_simp
  have n: "''proj'' \<noteq> []"
    by simp
  obtain message where m: "fst (analyzeDir ''proj'' ?tree initial_state) = Some message"
    and r: "main (Some ''proj'') ?tree =
              \<lparr>stdout = [],
               stderr = warnings (snd (analyzeDir ''proj'' ?tree initial_state))
                          @ [Text (''Error: '' @ message)],
               exitCode = 1\<rparr>"
    using listing_failure_is_fatal[OF w l n, THEN conjunct1] by blast
  have a: "analyzeDir ''proj'' ?tree initial_state =
      (Some ''EACCES: permission denied, scandir'',
       \<lparr>totalLines = 0, totalFiles = 1, totalSize = 0, fileLines = [], extensionsCount = [],
        warnings = [Text ''Warning: Could not read file proj/a.js EACCES: permission denied'']\<rparr>)"
    by code_simp
  from m have "message = ''EACCES: permission denied, scandir''"
    unfolding a by simp
  with r have "main (Some ''proj'') ?tree
     = \<lparr>stdout = [],
        stderr = [Text ''Warning: Could not read file proj/a.js EACCES: permission denied'',
                  Text ''Error: EACCES: permission denied, scandir''],
        exitCode = 1\<rparr>"
    unfolding a by simp
  with w l n show ?thesis
    by blast
qed

section \<open>The classifier\<close>










text \<open>
  C6. The claim takes the extension of a file name to be the text after its last dot,
  lowercased, and includes a file exactly when that text is on the allow-list. For the
  names \<open>.env\<close> and \<open>.gitignore\<close> that text is \<open>env\<close> and \<open>gitignore\<close>, which the allow-list
  holds; the code computes the empty extension for both names and leaves the files out
  of every count.
\<close>

theorem dotfiles_are_left_out:
  "afterLastDot ''.env'' = ''env''
   \<and> ''env'' \<in> set CODE_FILE_EXTENSIONS
   \<and> afterLastDot ''.gitignore'' = ''gitignore''
   \<and> ''gitignore'' \<in> set CODE_FILE_EXTENSIONS
   \<and> extensionOf (path_join ''proj'' ''.env'') = []
   \<and> extensionOf (path_join ''proj'' ''.gitignore'') = []
   \<and> analyzeFolder ''proj''
       (Directory [(''.env'', RegularFile (Inr ''KEY=1'') (Inr 5)),
                   (''.gitignore'', RegularFile (Inr ''node_modules'') (Inr 12))])
     = ([], Inr \<lparr>totalLines = 0, totalFiles = 0, totalSize = 0,
                topFiles = [], topExtensions = []\<rparr>)"
  by code_simp



section \<open>Printing sizes\<close>

lemma digitsOf_small: "n < 10 \<Longrightarrow> digitsOf n = [digit n]"
  by (simp add: digitsOf.simps)

lemma digitsOf_step: "10 \<le> n \<Longrightarrow> digitsOf n = digitsOf (n div 10) @ [digit (n mod 10)]"
  by (subst digitsOf.simps) simp

lemma digitsOf_hundreds:
  assumes "100 \<le> n"
  shows "digitsOf n = digitsOf (n div 100) @ [digit (n div 10 mod 10), digit (n mod 10)]"
proof -
  have "10 \<le> n div 10" using assms by simp
  then have "digitsOf (n div 10) = digitsOf (n div 10 div 10) @ [digit (n div 10 mod 10)]"
    by (rule digitsOf_step)
  moreover have "n div 10 div 10 = n div 100"
    by (simp add: div_mult2_eq[symmetric])
  ultimately show ?thesis
    using assms by (simp add: digitsOf_step)
qed

lemma digitsOf_not_Nil: "digitsOf n \<noteq> []"
  by (subst digitsOf.simps) simp

lemma of_char_digit: "d < 10 \<Longrightarrow> (of_char (digit d) :: nat) = 48 + d"
proof -
  assume "d < 10"
  then have "d \<in> {0, 1, 2, 3, 4, 5, 6, 7, 8, 9}" by auto
  then show ?thesis by (auto simp: digit_def)
qed

lemma valueOfDigits_snoc:
  "valueOfDigits (ds @ [c]) = 10 * valueOfDigits ds + (of_char c - 48)"
  by (simp add: valueOfDigits_def)

lemma valueOfDigits_digitsOf: "valueOfDigits (digitsOf n) = n"
proof (induction n rule: digitsOf.induct)
  case (1 n)
  show ?case
  proof (cases "n < 10")
    case True
    then show ?thesis
      by (simp add: digitsOf_small valueOfDigits_def of_char_digit)
  next
    case False
    with 1 show ?thesis
      by (simp add: digitsOf_step valueOfDigits_snoc of_char_digit)
  qed
qed

lemma toFixed_two:
  "toFixed x 2 = twoDecimals (nat \<lfloor>x * 100 + 1 / 2\<rfloor>)"
proof -
  define n where "n = nat \<lfloor>x * 100 + 1 / 2\<rfloor>"
  have t: "toFixed x 2 =
      (let m = digitsOf n; k = length m;
           m' = (if k \<le> 2 then replicate (3 - k) (CHR ''0'') @ m else m);
           k' = (if k \<le> 2 then 3 else k)
       in take (k' - 2) m' @ ''.'' @ drop (k' - 2) m')"
    by (simp add: toFixed_def n_def Let_def)
  consider "n < 10" | "10 \<le> n" "n < 100" | "100 \<le> n" by linarith
  then have "toFixed x 2 = twoDecimals n"
  proof cases
    case 1
    then show ?thesis
      by (simp add: t twoDecimals_def digitsOf_small digit_def numeral_3_eq_3)
  next
    case 2
    then have "n div 100 = 0" "n mod 100 = n" by simp_all
    with 2 show ?thesis
      by (simp add: t twoDecimals_def digitsOf_step digitsOf_small digit_def)
  next
    case 3
    have "n mod 100 div 10 = n div 10 mod 10"
      by (simp add: mod_mult2_eq[of n 10 10, simplified])
    with 3 show ?thesis
      by (simp add: t twoDecimals_def digitsOf_hundreds digitsOf_not_Nil Let_def)
  qed
  then show ?thesis by (simp add: n_def)
qed

lemma nearest_hundredth:
  fixes x :: rat
  assumes "0 \<le> x"
  shows "\<bar>of_nat (nat \<lfloor>x * 100 + 1 / 2\<rfloor>) / 100 - x\<bar> \<le> 1 / 200"
proof -
  define z where "z = \<lfloor>x * 100 + 1 / 2\<rfloor>"
  have "0 \<le> z" using assms by (simp add: z_def)
  then have n: "(of_nat (nat z) :: rat) = of_int z" by simp
  have "of_int z \<le> x * 100 + 1 / 2" "x * 100 + 1 / 2 < of_int z + 1"
    unfolding z_def by linarith+
  then have "of_int z / 100 - x \<le> 1 / 200" "- (1 / 200) \<le> of_int z / 100 - x"
    by linarith+
  then have "\<bar>of_int z / 100 - x\<bar> \<le> 1 / 200"
    by (intro abs_leI) linarith+
  then show ?thesis
    unfolding z_def[symmetric] n .
qed

lemma hundredths_div:
  assumes "0 < d"
  shows "nat \<lfloor>(of_nat b :: rat) / of_nat d * 100 + 1 / 2\<rfloor> = (200 * b + d) div (2 * d)"
proof -
  have "(of_nat b :: rat) / of_nat d * 100 + 1 / 2 = of_nat (200 * b + d) / of_nat (2 * d)"
    using assms by (simp add: field_simps)
  then show ?thesis
    by (simp only: floor_divide_of_nat_eq nat_int)
qed

lemma hundredths_bound:
  assumes "0 < d"
  shows "\<bar>of_nat ((200 * b + d) div (2 * d)) / 100 - of_nat b / of_nat d\<bar> \<le> (1 / 200 :: rat)"
proof -
  have "0 \<le> (of_nat b :: rat) / of_nat d" by simp
  from nearest_hundredth[OF this] show ?thesis
    by (simp only: hundredths_div[OF assms])
qed

lemma humanReadableSize_B:
  "bytes < 1024 \<Longrightarrow> humanReadableSize bytes = digitsOf bytes @ '' B''"
  by (simp add: humanReadableSize_def)

lemma humanReadableSize_KB:
  assumes "1024 \<le> bytes" "bytes < 1024 * 1024"
  shows "humanReadableSize bytes = twoDecimals ((200 * bytes + 1024) div 2048) @ '' KB''"
  using assms hundredths_div[of 1024 bytes]
  by (simp add: humanReadableSize_def toFixed_two)

lemma humanReadableSize_MB:
  assumes "1024 * 1024 \<le> bytes"
  shows "humanReadableSize bytes = twoDecimals ((200 * bytes + 1048576) div 2097152) @ '' MB''"
  using assms hundredths_div[of 1048576 bytes]
  by (simp add: humanReadableSize_def toFixed_two)

text \<open>
  C9. For a size that is an integer below \<open>2^53\<close>: below 1024 the result is the decimal
  digits of the size followed by \<open>B\<close>; below \<open>1024 * 1024\<close> it is the size divided by 1024,
  rounded to the nearest hundredth and printed with exactly two decimal places, followed
  by \<open>KB\<close>; from \<open>1024 * 1024\<close> on, however large, it is the size divided by
  \<open>1024 * 1024\<close>, printed the same way and followed by \<open>MB\<close>. The sizes 1023, 1536 and
  2097152 print as \<open>1023 B\<close>, \<open>1.50 KB\<close> and \<open>2.00 MB\<close>.
\<close>

theorem size_format:
  "bytes < 2 ^ 53 \<Longrightarrow>
     (bytes < 1024 \<longrightarrow>
        humanReadableSize bytes = digitsOf bytes @ '' B''
        \<and> valueOfDigits (digitsOf bytes) = bytes)
   \<and> (1024 \<le> bytes \<and> bytes < 1024 * 1024 \<longrightarrow>
        humanReadableSize bytes = twoDecimals ((200 * bytes + 1024) div 2048) @ '' KB''
        \<and> \<bar>of_nat ((200 * bytes + 1024) div 2048) / 100 - of_nat bytes / 1024\<bar>
            \<le> (1 / 200 :: rat))
   \<and> (1024 * 1024 \<le> bytes \<longrightarrow>
        humanReadableSize bytes =
          twoDecimals ((200 * bytes + 1048576) div 2097152) @ '' MB''
        \<and> \<bar>of_nat ((200 * bytes + 1048576) div 2097152) / 100 - of_nat bytes / (1024 * 1024)\<bar>
            \<le> (1 / 200 :: rat))
   \<and> humanReadableSize 1023 = ''1023 B''
   \<and> humanReadableSize 1536 = ''1.50 KB''
   \<and> humanReadableSize 2097152 = ''2.00 MB''"
proof (intro conjI impI)
  assume "bytes < 1024"
  then show "humanReadableSize bytes = digitsOf bytes @ '' B''"
    by (rule humanReadableSize_B)
  show "valueOfDigits (digitsOf bytes) = bytes"
    by (rule valueOfDigits_digitsOf)
next
  assume a: "1024 \<le> bytes \<and> bytes < 1024 * 1024"
  then show "humanReadableSize bytes = twoDecimals ((200 * bytes + 1024) div 2048) @ '' KB''"
    by (simp add: humanReadableSize_KB)
  show "\<bar>of_nat ((200 * bytes + 1024) div 2048) / 100 - of_nat bytes / 1024\<bar>
            \<le> (1 / 200 :: rat)"
    using hundredths_bound[of 1024 bytes] by simp
next
  assume a: "1024 * 1024 \<le> bytes"
  then show "humanReadableSize bytes =
          twoDecimals ((200 * bytes + 1048576) div 2097152) @ '' MB''"
    by (rule humanReadableSize_MB)
  show "\<bar>of_nat ((200 * bytes + 1048576) div 2097152) / 100 - of_nat bytes / (1024 * 1024)\<bar>
            \<le> (1 / 200 :: rat)"
    using hundredths_bound[of 1048576 bytes] by simp
next
  show "humanReadableSize 1023 = ''1023 B''"
    by (simp add: humanReadableSize_B digitsOf.simps digit_def)
  show "humanReadableSize 1536 = ''1.50 KB''"
    by (simp add: humanReadableSize_KB twoDecimals_def digitsOf.simps digit_def)
  show "humanReadableSize 2097152 = ''2.00 MB''"
    by (simp add: humanReadableSize_MB twoDecimals_def digitsOf.simps digit_def)
qed

theorem size_format_witness:
  "(1023 :: nat) < 2 ^ 53 \<and> (1023 :: nat) < 1024
   \<and> humanReadableSize 1023 = digitsOf 1023 @ '' B''
   \<and> (10239 :: nat) < 2 ^ 53 \<and> (1024 :: nat) \<le> 10239 \<and> (10239 :: nat) < 1024 * 1024
   \<and> humanReadableSize 10239 = twoDecimals 1000 @ '' KB''
   \<and> (1073741824 :: nat) < 2 ^ 53 \<and> (1024 * 1024 :: nat) \<le> 1073741824
   \<and> humanReadableSize 1073741824 = twoDecimals 102400 @ '' MB''"
proof -
  have b: "(1023 :: nat) < 2 ^ 53" "(10239 :: nat) < 2 ^ 53" "(1073741824 :: nat) < 2 ^ 53"
    by simp_all
  have 1: "humanReadableSize 1023 = digitsOf 1023 @ '' B''"
    using size_format[OF b(1), THEN conjunct1] by simp
  have 2: "humanReadableSize 10239 = twoDecimals 1000 @ '' KB''"
    using size_format[OF b(2), THEN conjunct2, THEN conjunct1] by simp
  have 3: "humanReadableSize 1073741824 = twoDecimals 102400 @ '' MB''"
    using size_format[OF b(3), THEN conjunct2, THEN conjunct2, THEN conjunct1] by simp
  from b 1 2 3 show ?thesis
    by simp
qed

end
